theory Spec2Isabelle
  imports Complex_Main "HOL-Library.Word"
begin

section \<open>The word2vec training orchestrator (\<^verbatim>\<open>word2vec_t::train\<close>)\<close>

text \<open>
  This theory embeds \<^verbatim>\<open>src/word2vec/word2vec.cpp\<close> and the declarations of
  \<^verbatim>\<open>src/word2vec/trainThread.hpp\<close>.

  Conventions of the embedding.
  \<^item> \<^verbatim>\<open>std::size_t\<close> is a 64-bit word; its arithmetic wraps.
  \<^item> The fields of \<^verbatim>\<open>settings_t\<close>, \<^verbatim>\<open>corpus_t\<close> and \<^verbatim>\<open>word2vec_t\<close> are declared in
    \<^verbatim>\<open>word2vec.hpp\<close>, which is not among the sources. Their integer fields are unsigned
    values of unknown width and are therefore natural numbers here; a width is a
    hypothesis wherever a result depends on it. The product of line 22 is taken in
    \<^verbatim>\<open>std::size_t\<close>, the type of \<^verbatim>\<open>words.size()\<close>.
  \<^item> A \<^verbatim>\<open>float\<close> is a value of the type \<open>f32\<close>: a real number, an infinity or NaN. Every
    operation on \<open>f32\<close> rounds its exact result to IEEE binary32 (round to nearest, ties
    to even, with subnormal numbers and overflow to infinity). The computation of
    line 67, \<^verbatim>\<open>ceil((float)n / (float)threads)\<close>, has the same rounding on fractions of
    natural numbers.
  \<^item> Exceptions are values. An exhausted memory (\<^verbatim>\<open>std::bad_alloc\<close>) is modelled at the two
    copy assignments of lines 110 and 111, which run after the workers have been joined;
    every other allocation succeeds, and a thread can always be started.
  \<^item> Code that is not among the sources (the constructors of \<^verbatim>\<open>huffmanTree_t\<close> and
    \<^verbatim>\<open>trainThread_t\<close>, the worker, the random number library, the allocator) is a field of
    the environment record \<open>env\<close>.
\<close>

subsection \<open>Binary32 numbers\<close>

text \<open>
  A \<^verbatim>\<open>float\<close>. \<open>Finite x\<close> is the number \<open>x\<close>; zero has no sign, and NaN has no payload.
\<close>

datatype f32 = Finite real | PInf | MInf | NaN

text \<open>\<open>rne_real y\<close> is \<open>y\<close> rounded to the nearest integer, ties to even.\<close>

definition rne_real :: "real \<Rightarrow> int" where
  "rne_real y = (let f = \<lfloor>y\<rfloor>
                 in if y - of_int f < 1 / 2 then f
                    else if 1 / 2 < y - of_int f then f + 1
                    else if even f then f else f + 1)"

text \<open>
  \<open>quantize x\<close> is the multiple of \<open>2\<^sup>e\<close> nearest to \<open>x\<close>, where \<open>2\<^sup>e\<close> is the distance of
  neighbouring binary32 numbers at the magnitude of \<open>x\<close>: 24 significant bits, and
  \<open>2\<^sup>-\<^sup>1\<^sup>4\<^sup>9\<close> for the subnormal numbers below \<open>2\<^sup>-\<^sup>1\<^sup>2\<^sup>6\<close>.
\<close>

definition quantize :: "real \<Rightarrow> real" where
  "quantize x = (if x = 0 then 0 else
     let e = max \<lfloor>log 2 \<bar>x\<bar>\<rfloor> (- 126) - 23
     in of_int (rne_real (x / 2 powi e)) * 2 powi e)"

text \<open>
  The binary32 value of an exact result \<open>x\<close>: infinite from \<open>2\<^sup>1\<^sup>2\<^sup>8 - 2\<^sup>1\<^sup>0\<^sup>3\<close> on, which is
  half-way between the largest binary32 number and \<open>2\<^sup>1\<^sup>2\<^sup>8\<close>.
\<close>

definition round32 :: "real \<Rightarrow> f32" where
  "round32 x = (if 2 ^ 128 - 2 ^ 103 \<le> x then PInf
                else if x \<le> - (2 ^ 128 - 2 ^ 103) then MInf
                else Finite (quantize x))"

text \<open>The conversion of an unsigned integer to \<^verbatim>\<open>float\<close>.\<close>

definition f32_of_nat :: "nat \<Rightarrow> f32" where
  "f32_of_nat n = round32 (real n)"

text \<open>Unary minus is exact.\<close>

definition f32_neg :: "f32 \<Rightarrow> f32" where
  "f32_neg x = (case x of Finite a \<Rightarrow> Finite (- a) | PInf \<Rightarrow> MInf | MInf \<Rightarrow> PInf | NaN \<Rightarrow> NaN)"

text \<open>
  The operators \<^verbatim>\<open>+\<close>, \<^verbatim>\<open>-\<close>, \<^verbatim>\<open>*\<close> and \<^verbatim>\<open>/\<close> on \<^verbatim>\<open>float\<close>. The difference of equal infinities,
  the product of zero and an infinity, and the quotients \<open>0 / 0\<close> and \<open>\<infinity> / \<infinity>\<close> are NaN. A
  quotient by zero has the sign of its numerator, as for a positive zero.
\<close>

definition f32_add :: "f32 \<Rightarrow> f32 \<Rightarrow> f32" where
  "f32_add x y =
     (case (x, y) of
        (NaN, _) \<Rightarrow> NaN
      | (_, NaN) \<Rightarrow> NaN
      | (Finite a, Finite b) \<Rightarrow> round32 (a + b)
      | (PInf, MInf) \<Rightarrow> NaN
      | (MInf, PInf) \<Rightarrow> NaN
      | (PInf, _) \<Rightarrow> PInf
      | (_, PInf) \<Rightarrow> PInf
      | (MInf, _) \<Rightarrow> MInf
      | (_, MInf) \<Rightarrow> MInf)"

definition f32_sub :: "f32 \<Rightarrow> f32 \<Rightarrow> f32" where
  "f32_sub x y = f32_add x (f32_neg y)"

definition f32_mul :: "f32 \<Rightarrow> f32 \<Rightarrow> f32" where
  "f32_mul x y =
     (case (x, y) of
        (NaN, _) \<Rightarrow> NaN
      | (_, NaN) \<Rightarrow> NaN
      | (Finite a, Finite b) \<Rightarrow> round32 (a * b)
      | (Finite a, PInf) \<Rightarrow> (if a = 0 then NaN else if 0 < a then PInf else MInf)
      | (Finite a, MInf) \<Rightarrow> (if a = 0 then NaN else if 0 < a then MInf else PInf)
      | (PInf, Finite b) \<Rightarrow> (if b = 0 then NaN else if 0 < b then PInf else MInf)
      | (MInf, Finite b) \<Rightarrow> (if b = 0 then NaN else if 0 < b then MInf else PInf)
      | (PInf, PInf) \<Rightarrow> PInf
      | (MInf, MInf) \<Rightarrow> PInf
      | (PInf, MInf) \<Rightarrow> MInf
      | (MInf, PInf) \<Rightarrow> MInf)"

definition f32_div :: "f32 \<Rightarrow> f32 \<Rightarrow> f32" where
  "f32_div x y =
     (case (x, y) of
        (NaN, _) \<Rightarrow> NaN
      | (_, NaN) \<Rightarrow> NaN
      | (Finite a, Finite b) \<Rightarrow>
          (if b = 0 then (if a = 0 then NaN else if 0 < a then PInf else MInf)
           else round32 (a / b))
      | (Finite a, _) \<Rightarrow> Finite 0
      | (PInf, Finite b) \<Rightarrow> (if 0 \<le> b then PInf else MInf)
      | (MInf, Finite b) \<Rightarrow> (if 0 \<le> b then MInf else PInf)
      | (_, _) \<Rightarrow> NaN)"

text \<open>
  \<^verbatim>\<open>exp\<close> of the mathematical library, taken as the exact exponential rounded once to
  binary32: it overflows to infinity and underflows to zero.
\<close>

definition f32_exp :: "f32 \<Rightarrow> f32" where
  "f32_exp x = (case x of Finite a \<Rightarrow> round32 (exp a) | PInf \<Rightarrow> PInf | MInf \<Rightarrow> Finite 0
                | NaN \<Rightarrow> NaN)"

subsection \<open>Data\<close>

type_synonym size_t = "64 word"

text \<open>The fields of \<^verbatim>\<open>settings_t\<close> that \<^verbatim>\<open>train\<close> reads.\<close>

record settings_t =
  size_s :: nat
  random_s :: nat
  iterations :: nat
  verbose :: bool
  expTableSize :: nat
  expValueMax :: nat
  withHS :: bool
  alpha :: f32
  threads :: nat

text \<open>The fields of \<^verbatim>\<open>corpus_t\<close> that \<^verbatim>\<open>train\<close> reads.\<close>

record corpus_t =
  texts :: "nat list list"
  words :: "string list"
  frequency :: "nat list"
  trainWords :: nat

text \<open>
  The members of \<^verbatim>\<open>word2vec_t\<close> that \<^verbatim>\<open>train\<close> writes. Any other member is in the
  extension of the record.
\<close>

record word2vec_t =
  m_vectorSize :: nat
  m_vocaburarySize :: nat
  m_pjLayerValues :: "f32 list"
  m_bpWeights :: "f32 list"
  m_errMsg :: string

text \<open>
  \<^verbatim>\<open>trainThread_t::data_t\<close>: the data shared by the workers. A null \<^verbatim>\<open>shared_ptr\<close> is
  \<open>None\<close>. The type \<open>'h\<close> stands for \<^verbatim>\<open>huffmanTree_t\<close> (declared in \<^verbatim>\<open>huffmanTree.hpp\<close>).
  The structure has no member for a negative-sampling table.
\<close>

record 'h data_t =
  settings :: settings_t
  corpus :: corpus_t
  bpWeights :: "f32 list"
  pjLayerValues :: "f32 list"
  expTable :: "f32 list"
  huffmanTree :: "'h option"
  processedWords :: nat
  alpha_d :: f32

text \<open>
  Exceptions: one that derives from \<^verbatim>\<open>std::exception\<close> carries its \<^verbatim>\<open>what()\<close> text; any
  other thrown object is \<open>Other_exception\<close>.
\<close>

datatype exn = Std_exception string | Other_exception

definition runtime_error :: "string \<Rightarrow> exn" where
  "runtime_error msg = Std_exception msg"

text \<open>
  The observable actions of the orchestrator, in program order: one event for each
  object it constructs with \<^verbatim>\<open>new\<close> and for each \<^verbatim>\<open>launch\<close> and \<^verbatim>\<open>join\<close>. The alphabet has
  an event for every class that the two source files name, also for \<^verbatim>\<open>nsDistribution_t\<close>,
  which \<^verbatim>\<open>trainThread_t\<close> declares as its private member \<^verbatim>\<open>m_nsDistribution\<close>.
\<close>

datatype event =
    New_corpus
  | New_settings
  | New_bpWeights nat
  | New_pjLayerValues nat
  | New_expTable nat
  | New_huffmanTree
  | New_nsDistribution
  | New_processedWords
  | New_alpha
  | New_trainThread size_t size_t
  | Launch nat
  | Join nat

text \<open>
  The result of a piece of the \<^verbatim>\<open>try\<close> block: it completes, it throws, or it has no
  defined return (\<open>Stuck\<close>: a loop that never ends, or undefined behaviour). The first two
  carry the events so far.
\<close>

datatype 'a step = Ok "event list" 'a | Throw "event list" exn | Stuck

text \<open>
  Modelled from the spec: the worker (\<^verbatim>\<open>trainThread.cpp\<close>) is not among the sources. By the
  spec a worker "mutates the shared input/output embedding matrices in place, and advances
  shared progress/learning-rate state", and "no entity is resized or reallocated during
  training". Its effect is therefore a sequence of stores.
\<close>

datatype store =
    Store_pjLayerValues nat f32
  | Store_bpWeights nat f32
  | Store_processedWords nat
  | Store_alpha f32

fun apply_store :: "store \<Rightarrow> 'h data_t \<Rightarrow> 'h data_t" where
  "apply_store (Store_pjLayerValues i v) d = d\<lparr>pjLayerValues := (pjLayerValues d)[i := v]\<rparr>"
| "apply_store (Store_bpWeights i v) d = d\<lparr>bpWeights := (bpWeights d)[i := v]\<rparr>"
| "apply_store (Store_processedWords k) d = d\<lparr>processedWords := k\<rparr>"
| "apply_store (Store_alpha a) d = d\<lparr>alpha_d := a\<rparr>"

text \<open>
  The environment of \<^verbatim>\<open>train\<close>: everything it calls that is not in \<^verbatim>\<open>word2vec.cpp\<close>.
  \<^item> \<open>mt19937_64\<close>: the generator seeded with \<^verbatim>\<open>settings->random\<close>; \<open>'g\<close> is its state.
  \<^item> \<open>uniform_real_distribution\<close>: one draw of \<^verbatim>\<open>std::uniform_real_distribution<float>(a, b)\<close>
    from a generator: the number drawn and the generator afterwards.
  \<^item> \<open>huffmanTree_t\<close>: the constructor of the Huffman tree from the frequencies; it may throw.
  \<^item> \<open>trainThread_t\<close>: the constructor of a worker for a range; \<open>Some e\<close> when it throws.
  \<^item> \<open>worker\<close>: the stores of all launched workers, in the order they take effect.
  \<^item> \<open>iter_seen\<close>: the value of the local \<^verbatim>\<open>iter\<close>, which the workers write, at the \<open>k\<close>-th
    evaluation of the condition of the progress loop.
  \<^item> \<open>assign_fails\<close>: the allocator at a copy assignment of a \<^verbatim>\<open>std::vector<float>\<close>, given
    the source line of the assignment and the value of its target: \<open>None\<close> when the
    storage of the copy is obtained, and \<open>Some (x, t)\<close> when the assignment throws \<open>x\<close>
    and leaves \<open>t\<close> in its target. (The assignment gives the basic guarantee only: a
    library may release the old storage of the target before it asks for the new one.)
\<close>

record ('g, 'h) env =
  mt19937_64 :: "nat \<Rightarrow> 'g"
  uniform_real_distribution :: "f32 \<Rightarrow> f32 \<Rightarrow> 'g \<Rightarrow> f32 \<times> 'g"
  huffmanTree_t :: "nat list \<Rightarrow> exn + 'h"
  trainThread_t :: "size_t \<times> size_t \<Rightarrow> 'h data_t \<Rightarrow> exn option"
  worker :: "'h data_t \<Rightarrow> (size_t \<times> size_t) list \<Rightarrow> store list"
  iter_seen :: "nat \<Rightarrow> int"
  assign_fails :: "nat \<Rightarrow> f32 list \<Rightarrow> (exn \<times> f32 list) option"

subsection \<open>Binary32 arithmetic of the partition size\<close>

text \<open>
  A non-negative \<^verbatim>\<open>float\<close> is a fraction \<open>(a, b)\<close> of naturals, \<open>b\<close> a power of two.
  \<open>bitlen_nat n\<close> is the number of binary digits of \<open>n\<close>; \<open>rne p q\<close> is \<open>p / q\<close> rounded to
  the nearest integer, ties to even; \<open>b32 p q\<close> is the binary32 number nearest to \<open>p / q\<close>
  (24 significant bits; the exponent range is not modelled, every value met here lies
  between \<open>2\<^sup>-\<^sup>6\<^sup>4\<close> and \<open>2\<^sup>6\<^sup>5\<close>).
\<close>

fun bitlen_nat :: "nat \<Rightarrow> nat" where
  "bitlen_nat n = (if n = 0 then 0 else Suc (bitlen_nat (n div 2)))"

declare bitlen_nat.simps [simp del]

definition rne :: "nat \<Rightarrow> nat \<Rightarrow> nat" where
  "rne p q = (let f = p div q; r = p mod q
              in if 2 * r < q then f
                 else if q < 2 * r then f + 1
                 else if even f then f else f + 1)"

definition b32 :: "nat \<Rightarrow> nat \<Rightarrow> nat \<times> nat" where
  "b32 p q = (if p = 0 then (0, 1) else
     let d = int (bitlen_nat p) - int (bitlen_nat q);
         e = (if q * 2 ^ nat d \<le> p * 2 ^ nat (- d) then d else d - 1) - 23;
         m = rne (p * 2 ^ nat (- e)) (q * 2 ^ nat e)
     in (m * 2 ^ nat e, 2 ^ nat (- e)))"

text \<open>\<^verbatim>\<open>(float)n\<close> for an unsigned integer \<open>n\<close>.\<close>

definition float_of_size :: "nat \<Rightarrow> nat \<times> nat" where
  "float_of_size n = b32 n 1"

text \<open>\<^verbatim>\<open>x / y\<close> on floats, for \<open>y\<close> not zero.\<close>

definition fdiv :: "nat \<times> nat \<Rightarrow> nat \<times> nat \<Rightarrow> nat \<times> nat" where
  "fdiv x y = b32 (fst x * snd y) (snd x * fst y)"

text \<open>\<^verbatim>\<open>ceil(x)\<close>, as a natural number.\<close>

definition fceil :: "nat \<times> nat \<Rightarrow> nat" where
  "fceil x = (fst x + snd x - 1) div snd x"

text \<open>
  Line 67: \<^verbatim>\<open>std::size_t per = ceil((float)n / (float)data.settings->threads)\<close>.
  With \<^verbatim>\<open>threads == 0\<close> the quotient is infinite or NaN, and the conversion of such a
  value to \<^verbatim>\<open>std::size_t\<close> is undefined, as is that of a value of \<open>2\<^sup>6\<^sup>4\<close> or more: \<open>None\<close>.
\<close>

definition per_of :: "nat \<Rightarrow> nat \<Rightarrow> size_t option" where
  "per_of n thr =
     (if thr = 0 then None
      else let v = fceil (fdiv (float_of_size n) (float_of_size thr))
           in if v < 2 ^ 64 then Some (of_nat v) else None)"

subsection \<open>The steps of \<^verbatim>\<open>train\<close>\<close>

text \<open>
  Line 44: \<^verbatim>\<open>std::uniform_real_distribution<float> rndMatrixInitializer(-0.005f, 0.005f)\<close>.
  The literal \<^verbatim>\<open>0.005f\<close> is the binary32 number nearest to \<open>5/1000\<close>, and \<^verbatim>\<open>-0.005f\<close> is its
  negation.
\<close>

definition rndMatrixInitializer :: "('g, 'h) env \<Rightarrow> 'g \<Rightarrow> f32 \<times> 'g" where
  "rndMatrixInitializer e =
     uniform_real_distribution e (f32_neg (round32 (5 / 1000))) (round32 (5 / 1000))"

text \<open>
  Lines 45 to 47: \<^verbatim>\<open>std::generate\<close> overwrites every element, first to last, with a fresh
  draw.
\<close>

fun generate :: "('g \<Rightarrow> f32 \<times> 'g) \<Rightarrow> f32 list \<Rightarrow> 'g \<Rightarrow> f32 list \<times> 'g" where
  "generate f [] g = ([], g)"
| "generate f (x # xs) g =
     (let (y, g') = f g; (ys, g'') = generate f xs g' in (y # ys, g''))"

text \<open>
  Lines 51 and 53: the value stored at index \<open>r\<close> of the sigmoid table,
  \<^verbatim>\<open>s / (s + 1.0f)\<close> for
  \<^verbatim>\<open>float s = exp((r / static_cast<float>(expTableSize) * 2.0f - 1.0f) * expValueMax)\<close>.
  The operands \<open>r\<close> and \<^verbatim>\<open>expValueMax\<close> are integers, converted to \<^verbatim>\<open>float\<close>.
\<close>

definition expTable_entry :: "nat \<Rightarrow> nat \<Rightarrow> nat \<Rightarrow> f32" where
  "expTable_entry N M r =
     (let s = f32_exp (f32_mul (f32_sub (f32_mul (f32_div (f32_of_nat r) (f32_of_nat N))
                                            (Finite 2)) (Finite 1))
                               (f32_of_nat M))
      in f32_div s (f32_add s (Finite 1)))"

text \<open>
  Lines 49 to 55: the loop that fills the sigmoid table. The counter \<open>r\<close> is a
  \<^verbatim>\<open>uint16_t\<close>: \<^verbatim>\<open>++r\<close> wraps from 65535 to 0. \<open>None\<close> when the loop does not end.
\<close>

partial_function (option) expTable_loop ::
    "nat \<Rightarrow> nat \<Rightarrow> 16 word \<Rightarrow> f32 list \<Rightarrow> f32 list option" where
  "expTable_loop N M r tab =
     (if unat r < N then
        expTable_loop N M (r + 1) (tab[unat r := expTable_entry N M (unat r)])
      else Some tab)"

text \<open>Line 48 and the loop: the table is allocated with \<open>N\<close> zeros, then filled.\<close>

definition make_expTable :: "nat \<Rightarrow> nat \<Rightarrow> f32 list option" where
  "make_expTable N M = expTable_loop N M 0 (replicate N (Finite 0))"

text \<open>Lines 37 to 62: the shared data.\<close>

definition init_data ::
    "('g, 'h) env \<Rightarrow> settings_t \<Rightarrow> corpus_t \<Rightarrow> size_t \<Rightarrow> 'g \<Rightarrow> event list \<Rightarrow> 'h data_t step" where
  "init_data e s c matrixSize g tr =
     (let bp = replicate (unat matrixSize) (Finite 0);
          pj = fst (generate (rndMatrixInitializer e) (replicate (unat matrixSize) (Finite 0)) g);
          tr1 = tr @ [New_bpWeights (unat matrixSize), New_pjLayerValues (unat matrixSize),
                      New_expTable (expTableSize s)]
      in case make_expTable (expTableSize s) (expValueMax s) of
           None \<Rightarrow> Stuck
         | Some tab \<Rightarrow>
             (let mk = (\<lambda>h. \<lparr>settings = s, corpus = c, bpWeights = bp, pjLayerValues = pj,
                               expTable = tab, huffmanTree = h, processedWords = 0,
                               alpha_d = alpha s\<rparr>)
              in if withHS s then
                   (case huffmanTree_t e (frequency c) of
                      Inl x \<Rightarrow> Throw tr1 x
                    | Inr h \<Rightarrow>
                        Ok (tr1 @ [New_huffmanTree, New_processedWords, New_alpha]) (mk (Some h)))
                 else Ok (tr1 @ [New_processedWords, New_alpha]) (mk None)))"

text \<open>
  Lines 68 to 75: the loop that creates the workers. \<open>i\<close> counts up to \<^verbatim>\<open>settings->threads\<close>;
  \<open>from\<close> and \<open>to\<close> are computed in \<^verbatim>\<open>std::size_t\<close>; \<open>acc\<close> is the vector \<^verbatim>\<open>threads\<close>, as the
  ranges of its workers.
\<close>

function create_threads ::
    "(size_t \<times> size_t \<Rightarrow> exn option) \<Rightarrow> size_t \<Rightarrow> size_t \<Rightarrow> nat \<Rightarrow> nat \<Rightarrow> event list \<Rightarrow>
     (size_t \<times> size_t) list \<Rightarrow> (size_t \<times> size_t) list step" where
  "create_threads ctor per n thr i tr acc =
     (if i < thr then
        let from = per * of_nat i;
            to = min (per * (of_nat i + 1) - 1) (n - 1)
        in (case ctor (from, to) of
              Some x \<Rightarrow> Throw tr x
            | None \<Rightarrow>
                if n - 1 = to then Ok (tr @ [New_trainThread from to]) (acc @ [(from, to)])
                else create_threads ctor per n thr (Suc i)
                       (tr @ [New_trainThread from to]) (acc @ [(from, to)]))
      else Ok tr acc)"
  by pat_completeness auto
termination
  by (relation "measure (\<lambda>(ctor, per, n, thr, i, tr, acc). thr - i)") simp_all

declare create_threads.simps [simp del]

text \<open>
  Lines 86 to 96: the progress loop, run when \<^verbatim>\<open>verbose\<close> is set. It ends at the first
  evaluation of its condition that sees \<^verbatim>\<open>iter_max <= iter\<close>. What it prints is not modelled.
\<close>

partial_function (option) poll :: "(nat \<Rightarrow> int) \<Rightarrow> int \<Rightarrow> nat \<Rightarrow> unit option" where
  "poll seen iter_max k = (if seen k < iter_max then poll seen iter_max (Suc k) else Some ())"

text \<open>Lines 77 to 101: launch every worker, report progress, join every worker.\<close>

definition run_threads ::
    "('g, 'h) env \<Rightarrow> 'h data_t \<Rightarrow> (size_t \<times> size_t) list \<Rightarrow> event list \<Rightarrow> 'h data_t step" where
  "run_threads e d ranges tr =
     (case (if verbose (settings d)
            then poll (iter_seen e) (int (iterations (settings d))) 0 else Some ()) of
        None \<Rightarrow> Stuck
      | Some u \<Rightarrow>
          Ok (tr @ map Launch [0..<length ranges] @ map Join [0..<length ranges])
             (fold apply_store (worker e d ranges) d))"

text \<open>
  The \<^verbatim>\<open>try\<close> block up to the last \<^verbatim>\<open>join\<close>, lines 17 to 101: everything before the two
  assignments that publish the matrices.
\<close>

definition train_body :: "('g, 'h) env \<Rightarrow> settings_t \<Rightarrow> corpus_t \<Rightarrow> 'h data_t step" where
  "train_body e s c =
     (let tr = [New_corpus, New_settings];
          vectorSize = size_s s;
          vocaburarySize = length (words c);
          matrixSize = (of_nat (vectorSize * vocaburarySize) :: size_t);
          randomGenerator = mt19937_64 e (random_s s)
      in if vectorSize = 0 then Throw tr (runtime_error ''vectorSize is zero'')
         else if vocaburarySize = 0 then Throw tr (runtime_error ''vocaburarySize is zero'')
         else if trainWords c = 0 then Throw tr (runtime_error ''trainWords is zero'')
         else (case init_data e s c matrixSize randomGenerator tr of
                 Stuck \<Rightarrow> Stuck
               | Throw tr1 x \<Rightarrow> Throw tr1 x
               | Ok tr1 d \<Rightarrow>
                   (case per_of (length (texts c)) (threads s) of
                      None \<Rightarrow> Stuck
                    | Some per \<Rightarrow>
                        (case create_threads (\<lambda>r. trainThread_t e r d) per
                                (of_nat (length (texts c))) (threads s) 0 tr1 [] of
                           Stuck \<Rightarrow> Stuck
                         | Throw tr2 x \<Rightarrow> Throw tr2 x
                         | Ok tr2 ranges \<Rightarrow> run_threads e d ranges tr2))))"

text \<open>
  The copy assignment of a \<^verbatim>\<open>std::vector<float>\<close> on the given line: the target
  afterwards, and the exception that the assignment throws, if any.
\<close>

definition assign_vector ::
    "('g, 'h) env \<Rightarrow> nat \<Rightarrow> f32 list \<Rightarrow> f32 list \<Rightarrow> f32 list \<times> exn option" where
  "assign_vector e line target source =
     (case assign_fails e line target of
        None \<Rightarrow> (source, None)
      | Some (x, t) \<Rightarrow> (t, Some x))"

text \<open>
  Lines 110 and 111: \<^verbatim>\<open>m_pjLayerValues = *data.pjLayerValues; m_bpWeights = *data.bpWeights;\<close>.
  The second assignment runs only when the first has not thrown.
\<close>

definition publish ::
    "('g, 'h) env \<Rightarrow> 'z word2vec_t_scheme \<Rightarrow> 'h data_t \<Rightarrow> 'z word2vec_t_scheme \<times> exn option" where
  "publish e w d =
     (case assign_vector e 110 (m_pjLayerValues w) (pjLayerValues d) of
        (pj, Some x) \<Rightarrow> (w\<lparr>m_pjLayerValues := pj\<rparr>, Some x)
      | (pj, None) \<Rightarrow>
          (case assign_vector e 111 (m_bpWeights w) (bpWeights d) of
             (bp, r) \<Rightarrow> (w\<lparr>m_pjLayerValues := pj, m_bpWeights := bp\<rparr>, r)))"

text \<open>The two \<^verbatim>\<open>catch\<close> clauses, lines 114 to 118: the text stored in \<^verbatim>\<open>m_errMsg\<close>.\<close>

fun caught :: "exn \<Rightarrow> string" where
  "caught (Std_exception msg) = msg"
| "caught Other_exception = ''unknown error''"

text \<open>
  \<^verbatim>\<open>word2vec_t::train\<close>: the events, the returned flag and the object after the call;
  \<open>None\<close> when the call has no defined return. Lines 20 and 21 assign \<^verbatim>\<open>m_vectorSize\<close> and
  \<^verbatim>\<open>m_vocaburarySize\<close> before anything can throw. An exception of the body or of the two
  assignments is caught by the same handlers; \<^verbatim>\<open>return true\<close> on line 113 follows the
  assignments.
\<close>

definition train ::
    "('g, 'h) env \<Rightarrow> 'z word2vec_t_scheme \<Rightarrow> settings_t \<Rightarrow> corpus_t \<Rightarrow>
     (event list \<times> bool \<times> 'z word2vec_t_scheme) option" where
  "train e w s c =
     (let w1 = w\<lparr>m_vectorSize := size_s s, m_vocaburarySize := length (words c)\<rparr>
      in case train_body e s c of
           Ok tr d \<Rightarrow>
             (case publish e w1 d of
                (w2, None) \<Rightarrow> Some (tr, True, w2)
              | (w2, Some x) \<Rightarrow> Some (tr, False, w2\<lparr>m_errMsg := caught x\<rparr>))
         | Throw tr x \<Rightarrow> Some (tr, False, w1\<lparr>m_errMsg := caught x\<rparr>)
         | Stuck \<Rightarrow> None)"

subsection \<open>The learning-rate schedule\<close>

text \<open>
  Modelled from the spec: the code that updates the shared learning rate is in the worker
  (\<^verbatim>\<open>trainThread.cpp\<close>), of which only the shared fields \<^verbatim>\<open>processedWords\<close> and \<^verbatim>\<open>alpha\<close> of
  \<^verbatim>\<open>data_t\<close> are declared here. By the spec, after each processed word the shared learning
  rate is recomputed as
  \<^verbatim>\<open>alpha_initial * max(1 - processedWords/(iterations*totalTrainWords+1), minFraction)\<close>.
\<close>

definition learning_rate :: "real \<Rightarrow> real \<Rightarrow> nat \<Rightarrow> nat \<Rightarrow> nat \<Rightarrow> real" where
  "learning_rate alpha_initial minFraction iters totalTrainWords processed =
     alpha_initial *
       max (1 - real processed / real (iters * totalTrainWords + 1)) minFraction"

subsection \<open>The sigmoid table as specified\<close>

text \<open>
  The entry of the sigmoid table at index \<open>r\<close> in the words of the specification:
  \<open>exp(x)/(exp(x)+1)\<close> where \<open>x = (2 * r / expTableSize - 1) * expValueMax\<close>, a real number.
\<close>

definition sigmoid_spec :: "nat \<Rightarrow> nat \<Rightarrow> nat \<Rightarrow> real" where
  "sigmoid_spec N M r =
     (let x = (2 * real r / real N - 1) * real M in exp x / (exp x + 1))"

subsection \<open>Example inputs\<close>

text \<open>
  A small environment and the inputs of the end-to-end scenario: the vocabulary
  \<open>a, b, c\<close> with frequencies \<open>5, 3, 2\<close>, one document of two words, dimensionality 2,
  hierarchical softmax, one worker, one iteration. In the environment no constructor
  throws, no allocation fails, and a draw from the distribution on \<open>a\<close> and \<open>b\<close> is one of
  the four numbers \<open>a + (b - a) * k / 4\<close>.
\<close>

definition example_env :: "(nat, unit) env" where
  "example_env =
     \<lparr>mt19937_64 = (\<lambda>seed. seed),
      uniform_real_distribution =
        (\<lambda>a b g. ((case (a, b) of
                      (Finite x, Finite y) \<Rightarrow> Finite (x + (y - x) * (real (g mod 4) / 4))
                    | _ \<Rightarrow> NaN), Suc g)),
      huffmanTree_t = (\<lambda>f. Inr ()),
      trainThread_t = (\<lambda>r d. None),
      worker = (\<lambda>d rs. [Store_pjLayerValues 0 (Finite (1 / 8)), Store_bpWeights 1 (Finite (1 / 4)),
                         Store_processedWords 2, Store_alpha (Finite (1 / 64))]),
      iter_seen = (\<lambda>k. int k),
      assign_fails = (\<lambda>line target. None)\<rparr>"

definition example_settings :: settings_t where
  "example_settings =
     \<lparr>size_s = 2, random_s = 1234, iterations = 1, verbose = False, expTableSize = 1000,
      expValueMax = 6, withHS = True, alpha = Finite (1 / 32), threads = 1\<rparr>"

definition example_corpus :: corpus_t where
  "example_corpus =
     \<lparr>texts = [[0, 1]], words = [''a'', ''b'', ''c''], frequency = [5, 3, 2], trainWords = 2\<rparr>"

definition example_model :: word2vec_t where
  "example_model =
     \<lparr>m_vectorSize = 0, m_vocaburarySize = 0, m_pjLayerValues = [], m_bpWeights = [],
      m_errMsg = []\<rparr>"

text \<open>The same settings with negative sampling (\<^verbatim>\<open>withHS\<close> unset) and two workers.\<close>

definition example_settings_ns :: settings_t where
  "example_settings_ns = example_settings\<lparr>withHS := False, threads := 2\<rparr>"

text \<open>A corpus of 16777217 empty documents.\<close>

definition example_corpus_big :: corpus_t where
  "example_corpus_big = example_corpus\<lparr>texts := replicate 16777217 []\<rparr>"

text \<open>An environment in which the constructor of the Huffman tree throws a non-standard
  exception, and the settings with progress reports.\<close>

definition example_env_throwing :: "(nat, unit) env" where
  "example_env_throwing = example_env\<lparr>huffmanTree_t := \<lambda>f. Inl Other_exception\<rparr>"

definition example_settings_verbose :: settings_t where
  "example_settings_verbose = example_settings\<lparr>verbose := True\<rparr>"



text \<open>Settings with a sigmoid table of four entries for the arguments up to 255.\<close>

definition example_settings_steep :: settings_t where
  "example_settings_steep = example_settings\<lparr>expTableSize := 4, expValueMax := 255\<rparr>"

section \<open>Properties\<close>

subsection \<open>Rounding to binary32\<close>

lemma rne_real_of_int: "rne_real (of_int k) = k"
  by (simp add: rne_real_def)

lemma rne_real_small: "0 \<le> y \<Longrightarrow> y < 1 / 2 \<Longrightarrow> rne_real y = 0"
proof -
  assume y: "0 \<le> y" "y < 1 / 2"
  then have "\<lfloor>y\<rfloor> = 0" by (simp add: floor_eq_iff)
  with y show ?thesis by (simp add: rne_real_def)
qed

lemma floor_log2_less:
  assumes "0 < x" "x < 2 powi k"
  shows "\<lfloor>log 2 x\<rfloor> < k"
proof -
  have "x < 2 powr (real_of_int k)" using assms(2) by (simp add: powr_real_of_int')
  then have "log 2 x < real_of_int k" using assms(1) by (simp add: log_less_iff)
  then show ?thesis by linarith
qed

lemma floor_log2_ge:
  assumes "0 < x" "2 powi k \<le> x"
  shows "k \<le> \<lfloor>log 2 x\<rfloor>"
proof -
  have "2 powr (real_of_int k) \<le> x" using assms(2) by (simp add: powr_real_of_int')
  then have "real_of_int k \<le> log 2 x" using assms(1) by (simp add: le_log_iff)
  then show ?thesis by (simp add: le_floor_iff)
qed

text \<open>A number with at most 24 significant bits and an exponent in range is a binary32
  number: rounding does not change it.\<close>

lemma quantize_dyadic:
  assumes "\<bar>m\<bar> < 2 ^ 24" "n \<le> 149"
  shows "quantize (of_int m / 2 ^ n) = of_int m / 2 ^ n"
proof (cases "m = 0")
  case True
  then show ?thesis by (simp add: quantize_def)
next
  case False
  define x :: real where "x = of_int m / 2 ^ n"
  have x0: "x \<noteq> 0" using False by (simp add: x_def)
  define e where "e = max \<lfloor>log 2 \<bar>x\<bar>\<rfloor> (- 126) - 23"
  have "\<bar>x\<bar> = of_int \<bar>m\<bar> / 2 ^ n" by (simp add: x_def)
  also have "\<dots> < 2 ^ 24 / 2 ^ n"
    using assms(1) by (intro divide_strict_right_mono) (simp_all add: of_int_less_numeral_power_cancel_iff)
  also have "\<dots> = 2 powi (24 - int n)"
    by (simp add: power_int_diff)
  finally have "\<lfloor>log 2 \<bar>x\<bar>\<rfloor> < 24 - int n"
    using x0 by (intro floor_log2_less) simp_all
  with assms(2) have e: "e \<le> - int n" by (simp add: e_def)
  define j where "j = nat (- int n - e)"
  have ej: "e = - int n - int j" using e by (simp add: j_def)
  have "x / 2 powi e = of_int m * 2 ^ j"
    by (simp add: x_def ej power_int_diff power_int_minus field_simps power_add)
  also have "\<dots> = of_int (m * 2 ^ j)" by simp
  finally have "rne_real (x / 2 powi e) = m * 2 ^ j"
    by (simp only: rne_real_of_int)
  then have "of_int (rne_real (x / 2 powi e)) * 2 powi e = x"
    by (simp add: x_def ej power_int_diff power_int_minus field_simps power_add)
  then show ?thesis
    using x0 unfolding quantize_def Let_def e_def [symmetric] x_def [symmetric] by simp
qed

text \<open>A positive number below \<open>2\<^sup>-\<^sup>1\<^sup>5\<^sup>0\<close>, half the smallest subnormal number, rounds to zero.\<close>

lemma quantize_underflow:
  assumes "0 < x" "x < 1 / 2 ^ 150"
  shows "quantize x = 0"
proof -
  have "x < 2 powi (- 150)" using assms(2) by (simp add: power_int_minus field_simps)
  with assms(1) have "\<lfloor>log 2 x\<rfloor> < - 150" by (rule floor_log2_less)
  then have e: "max \<lfloor>log 2 \<bar>x\<bar>\<rfloor> (- 126) - 23 = - 149" using assms(1) by simp
  define y where "y = x / 2 powi (- 149)"
  have yx: "y = x * 2 ^ 149" by (simp add: y_def power_int_minus field_simps)
  have "x * 2 ^ 149 < 1 / 2 ^ 150 * 2 ^ 149"
    using assms(2) by (rule mult_strict_right_mono) simp
  also have "\<dots> = 1 / (2::real)"
    by (simp add: power_add [of 2 149 1, simplified])
  finally have lt: "y < 1 / 2" by (simp only: yx)
  have ge: "0 \<le> y" unfolding yx using assms(1) by simp
  have "rne_real y = 0" using ge lt by (rule rne_real_small)
  then show ?thesis
    using assms(1) unfolding quantize_def Let_def e y_def by simp
qed

text \<open>The rounding of a positive normal number, given its binade.\<close>

lemma quantize_binade:
  assumes "2 powi k \<le> x" "x < 2 powi (k + 1)" "- 126 \<le> k"
  shows "quantize x = of_int (rne_real (x / 2 powi (k - 23))) * 2 powi (k - 23)"
proof -
  have pos: "0 < x"
    using assms(1) by (rule less_le_trans [rotated]) simp
  from floor_log2_ge [OF pos assms(1)] floor_log2_less [OF pos assms(2)]
  have "\<lfloor>log 2 x\<rfloor> = k" by simp
  then have "max \<lfloor>log 2 \<bar>x\<bar>\<rfloor> (- 126) - 23 = k - 23"
    using pos assms(3) by simp
  then show ?thesis
    using pos unfolding quantize_def Let_def by simp
qed

lemma round32_dyadic:
  assumes "\<bar>m\<bar> < 2 ^ 24" "n \<le> 149"
  shows "round32 (of_int m / 2 ^ n) = Finite (of_int m / 2 ^ n)"
proof -
  define x :: real where "x = of_int m / 2 ^ n"
  have "\<bar>x\<bar> = \<bar>of_int m\<bar> / 2 ^ n" by (simp add: x_def)
  also have "\<dots> \<le> \<bar>of_int m\<bar>"
    by (simp add: field_simps mult_le_cancel_left1)
  also have "\<dots> < 2 ^ 24"
    using assms(1) by (simp add: of_int_less_numeral_power_cancel_iff flip: of_int_abs)
  also have "(2::real) ^ 24 \<le> 2 ^ 128 - 2 ^ 103" by simp
  finally have "\<bar>x\<bar> < 2 ^ 128 - 2 ^ 103" .
  then have "\<not> 2 ^ 128 - 2 ^ 103 \<le> x" "\<not> x \<le> - (2 ^ 128 - 2 ^ 103)" by linarith+
  then have "round32 x = Finite (quantize x)" by (simp only: round32_def if_False)
  then show ?thesis
    using quantize_dyadic [OF assms] by (simp add: x_def)
qed

lemma round32_values:
  "round32 0 = Finite 0" "round32 1 = Finite 1" "round32 2 = Finite 2" "round32 3 = Finite 3"
  "round32 4 = Finite 4" "round32 255 = Finite 255"
  "round32 (1 / 4) = Finite (1 / 4)" "round32 (1 / 2) = Finite (1 / 2)"
  "round32 (3 / 4) = Finite (3 / 4)" "round32 (3 / 2) = Finite (3 / 2)"
  "round32 (- 1) = Finite (- 1)" "round32 (- (1 / 2)) = Finite (- (1 / 2))"
  "round32 (- 255) = Finite (- 255)" "round32 (- (255 / 2)) = Finite (- (255 / 2))"
  "round32 (255 / 2) = Finite (255 / 2)"
  using round32_dyadic [of 0 0] round32_dyadic [of 1 0] round32_dyadic [of 2 0]
    round32_dyadic [of 3 0] round32_dyadic [of 4 0] round32_dyadic [of 255 0]
    round32_dyadic [of 1 2] round32_dyadic [of 1 1] round32_dyadic [of 3 2]
    round32_dyadic [of 3 1] round32_dyadic [of "- 1" 0] round32_dyadic [of "- 1" 1]
    round32_dyadic [of "- 255" 0] round32_dyadic [of "- 255" 1] round32_dyadic [of 255 1]
  by simp_all

text \<open>The literal \<^verbatim>\<open>0.005f\<close> is \<open>10737418 / 2\<^sup>3\<^sup>1\<close>, a little less than \<open>5/1000\<close>.\<close>

lemma round32_literal: "round32 (5 / 1000) = Finite (10737418 / 2 ^ 31)"
proof -
  have "quantize (5 / 1000) =
          of_int (rne_real (5 / 1000 / 2 powi (- 8 - 23))) * 2 powi (- 8 - 23)"
    by (rule quantize_binade) (simp_all add: power_int_minus)
  also have "5 / 1000 / 2 powi (- 8 - 23) = (268435456 / 25 :: real)"
    by (simp add: power_int_minus)
  also have "rne_real (268435456 / 25) = 10737418"
    by (simp add: rne_real_def)
  finally have "quantize (5 / 1000) = 10737418 / 2 ^ 31"
    by (simp add: power_int_minus)
  then show ?thesis by (simp add: round32_def)
qed

lemma round32_literal_normal: "round32 (1 / 200) = Finite (5368709 / 1073741824)"
  using round32_literal by simp

text \<open>\<open>exp (255/2)\<close> exceeds every binary32 number, and \<open>exp (- 255/2)\<close> is below half the
  smallest one.\<close>

lemma exp_big: "2 ^ 150 < exp (255 / 2 :: real)"
proof -
  have "1 + (17 / 20) + (17 / 20)\<^sup>2 / 2 \<le> exp (17 / 20 :: real)"
    by (rule exp_lower_Taylor_quadratic) simp
  then have "2 < exp (17 / 20 :: real)" by (simp add: power2_eq_square)
  then have "2 ^ 150 < exp (17 / 20 :: real) ^ 150"
    by (intro power_strict_mono) simp_all
  also have "\<dots> = exp (of_nat 150 * (17 / 20))" by (rule exp_of_nat_mult [symmetric])
  also have "of_nat 150 * (17 / 20) = (255 / 2 :: real)" by simp
  finally show ?thesis .
qed

lemma round32_exp_overflow: "round32 (exp (255 / 2)) = PInf"
proof -
  have "(2::real) ^ 128 - 2 ^ 103 \<le> 2 ^ 150" by simp
  with exp_big have "2 ^ 128 - 2 ^ 103 \<le> exp (255 / 2 :: real)" by linarith
  then show ?thesis by (simp only: round32_def if_True)
qed

lemma round32_exp_underflow:
  assumes "255 / 2 \<le> x"
  shows "round32 (exp (- x)) = Finite 0"
proof -
  have "exp (255 / 2) \<le> exp x" using assms by simp
  with exp_big have big: "2 ^ 150 < exp x" by linarith
  have "exp (- x) = 1 / exp x" by (simp add: exp_minus field_simps)
  also have "\<dots> < 1 / 2 ^ 150"
    using big by (intro divide_strict_left_mono) simp_all
  finally have small: "exp (- x) < 1 / 2 ^ 150" .
  then have "quantize (exp (- x)) = 0" by (intro quantize_underflow) simp_all
  moreover have "\<not> 2 ^ 128 - 2 ^ 103 \<le> exp (- x)"
  proof -
    have "exp (- x) < 1" using small by (rule less_trans) simp
    moreover have "(1::real) \<le> 2 ^ 128 - 2 ^ 103" by simp
    ultimately show ?thesis by linarith
  qed
  moreover have "\<not> exp (- x) \<le> - (2 ^ 128 - 2 ^ 103)"
  proof -
    have "(0::real) < exp (- x)" by simp
    moreover have "- ((2::real) ^ 128 - 2 ^ 103) \<le> 0" by simp
    ultimately show ?thesis by linarith
  qed
  ultimately show ?thesis by (simp only: round32_def if_False)
qed

text \<open>The sigmoid table of four entries for the arguments up to 255: the exponential
  underflows at the indices 0 and 1 and overflows at the index 3.\<close>

lemma expTable_entry_4_255:
  "expTable_entry 4 255 0 = Finite 0" "expTable_entry 4 255 (Suc 0) = Finite 0"
  "expTable_entry 4 255 2 = Finite (1 / 2)" "expTable_entry 4 255 3 = NaN"
  using round32_exp_underflow [of 255] round32_exp_underflow [of "255 / 2"]
  by (simp_all add: expTable_entry_def f32_of_nat_def f32_div_def f32_mul_def f32_sub_def
      f32_add_def f32_neg_def f32_exp_def round32_values round32_exp_overflow Let_def)

subsection \<open>The rounding is symmetric, monotone and idempotent\<close>

lemma rne_real_bounds: "\<lfloor>y\<rfloor> \<le> rne_real y" "rne_real y \<le> \<lfloor>y\<rfloor> + 1"
  by (simp_all add: rne_real_def Let_def)

lemma rne_real_mono:
  assumes "x \<le> y"
  shows "rne_real x \<le> rne_real y"
proof (cases "\<lfloor>x\<rfloor> = \<lfloor>y\<rfloor>")
  case True
  with assms have "x - of_int \<lfloor>x\<rfloor> \<le> y - of_int \<lfloor>y\<rfloor>" by simp
  with True show ?thesis by (auto simp add: rne_real_def Let_def)
next
  case False
  moreover from assms have "\<lfloor>x\<rfloor> \<le> \<lfloor>y\<rfloor>" by (rule floor_mono)
  ultimately have "\<lfloor>x\<rfloor> + 1 \<le> \<lfloor>y\<rfloor>" by simp
  with rne_real_bounds(2) [of x] rne_real_bounds(1) [of y] show ?thesis by linarith
qed

lemma rne_real_minus: "rne_real (- y) = - rne_real y"
proof (cases "y = of_int \<lfloor>y\<rfloor>")
  case True
  then obtain k where "y = of_int k" ..
  then have "- y = of_int (- k)" by simp
  then show ?thesis unfolding \<open>y = of_int k\<close> by (simp only: rne_real_of_int)
next
  case False
  then have fl: "\<lfloor>- y\<rfloor> = - \<lfloor>y\<rfloor> - 1"
    by (simp add: floor_eq_iff) linarith
  have "y - of_int \<lfloor>y\<rfloor> < 1" "0 \<le> y - of_int \<lfloor>y\<rfloor>" by linarith+
  then show ?thesis
    unfolding rne_real_def Let_def fl by (auto simp add: field_simps)
qed

lemma quantize_minus: "quantize (- x) = - quantize x"
  by (simp add: quantize_def Let_def rne_real_minus)

lemma quantize_nonneg: "0 \<le> x \<Longrightarrow> 0 \<le> quantize x"
proof -
  assume x: "0 \<le> x"
  have "0 \<le> rne_real (x / 2 powi e)" for e
  proof -
    have "0 \<le> x / 2 powi e" using x by simp
    then have "0 \<le> \<lfloor>x / 2 powi e\<rfloor>" by simp
    with rne_real_bounds(1) [of "x / 2 powi e"] show ?thesis by linarith
  qed
  then show ?thesis by (simp add: quantize_def Let_def)
qed

lemma quantize_upper:
  assumes "0 < x"
  shows "quantize x \<le> 2 powi (max \<lfloor>log 2 x\<rfloor> (- 126) + 1)"
proof -
  define k where "k = max \<lfloor>log 2 x\<rfloor> (- 126)"
  have "\<lfloor>log 2 x\<rfloor> < k + 1" by (simp add: k_def)
  then have "log 2 x < of_int (k + 1)" by (simp only: floor_less_iff)
  then have "x < 2 powr of_int (k + 1)" using assms by (simp only: log_less_iff)
  then have lt: "x < 2 powi (k + 1)" by (simp add: powr_real_of_int' del: of_int_add)
  have "x / 2 powi (k - 23) < 2 powi (k + 1) / 2 powi (k - 23)"
    using lt by (rule divide_strict_right_mono) simp
  also have "\<dots> = 2 powi ((k + 1) - (k - 23))" by (rule power_int_diff [symmetric]) simp
  also have "(k + 1) - (k - 23) = 24" by simp
  also have "(2::real) powi 24 = of_int (2 ^ 24)" by simp
  finally have "\<lfloor>x / 2 powi (k - 23)\<rfloor> < 2 ^ 24" by (simp only: floor_less_iff)
  with rne_real_bounds(2) [of "x / 2 powi (k - 23)"]
  have "rne_real (x / 2 powi (k - 23)) \<le> 2 ^ 24" by linarith
  then have "(of_int (rne_real (x / 2 powi (k - 23))) :: real) \<le> of_int (2 ^ 24)"
    by (simp only: of_int_le_iff)
  then have "of_int (rne_real (x / 2 powi (k - 23))) * 2 powi (k - 23)
               \<le> of_int (2 ^ 24) * (2 powi (k - 23) :: real)"
    by (rule mult_right_mono) simp
  also have "of_int (2 ^ 24) * (2 powi (k - 23) :: real) = 2 powi 24 * 2 powi (k - 23)" by simp
  also have "\<dots> = 2 powi (24 + (k - 23))" by (rule power_int_add [symmetric]) simp
  also have "24 + (k - 23) = k + 1" by simp
  finally show ?thesis
    using assms unfolding quantize_def Let_def k_def by simp
qed

lemma quantize_lower:
  assumes "0 < x" "- 126 \<le> \<lfloor>log 2 x\<rfloor>"
  shows "2 powi \<lfloor>log 2 x\<rfloor> \<le> quantize x"
proof -
  define k where "k = \<lfloor>log 2 x\<rfloor>"
  have "of_int k \<le> log 2 x" by (simp add: k_def)
  then have "2 powr of_int k \<le> x" using assms(1) by (simp add: le_log_iff)
  then have ge: "2 powi k \<le> x" by (simp add: powr_real_of_int')
  have ax: "\<bar>x\<bar> = x" using assms(1) by simp
  have m: "max \<lfloor>log 2 x\<rfloor> (- 126) = \<lfloor>log 2 x\<rfloor>" using assms(2) by linarith
  have q: "quantize x = of_int (rne_real (x / 2 powi (k - 23))) * 2 powi (k - 23)"
    unfolding quantize_def Let_def ax m k_def using assms(1) by simp
  have "(2 powi k / 2 powi (k - 23) :: real) = 2 powi (k - (k - 23))"
    by (rule power_int_diff [symmetric]) simp
  also have "k - (k - 23) = 23" by simp
  finally have "of_int (2 ^ 23) = (2 powi k / 2 powi (k - 23) :: real)" by simp
  also have "\<dots> \<le> x / 2 powi (k - 23)"
    using ge by (rule divide_right_mono) simp
  finally have "2 ^ 23 \<le> \<lfloor>x / 2 powi (k - 23)\<rfloor>" by (simp only: le_floor_iff)
  with rne_real_bounds(1) [of "x / 2 powi (k - 23)"]
  have "2 ^ 23 \<le> rne_real (x / 2 powi (k - 23))" by linarith
  then have r: "(of_int (2 ^ 23) :: real) \<le> of_int (rne_real (x / 2 powi (k - 23)))"
    by (simp only: of_int_le_iff)
  have "(2 powi k :: real) = 2 powi (23 + (k - 23))" by simp
  also have "\<dots> = 2 powi 23 * 2 powi (k - 23)" by (rule power_int_add) simp
  also have "\<dots> = of_int (2 ^ 23) * 2 powi (k - 23)" by simp
  also have "\<dots> \<le> of_int (rne_real (x / 2 powi (k - 23))) * 2 powi (k - 23)"
    using r by (rule mult_right_mono) simp
  finally show ?thesis by (simp only: q k_def)
qed

lemma quantize_mono_pos:
  assumes "0 < x" "x \<le> y"
  shows "quantize x \<le> quantize y"
proof -
  have y: "0 < y" using assms by simp
  have "log 2 x \<le> log 2 y" using assms by simp
  then have fl: "\<lfloor>log 2 x\<rfloor> \<le> \<lfloor>log 2 y\<rfloor>" by (rule floor_mono)
  define kx where "kx = max \<lfloor>log 2 x\<rfloor> (- 126)"
  define ky where "ky = max \<lfloor>log 2 y\<rfloor> (- 126)"
  have le: "kx \<le> ky" using fl by (simp add: kx_def ky_def)
  show ?thesis
  proof (cases "kx = ky")
    case True
    have "x / 2 powi (ky - 23) \<le> y / 2 powi (ky - 23)"
      using assms(2) by (rule divide_right_mono) simp
    then have "rne_real (x / 2 powi (ky - 23)) \<le> rne_real (y / 2 powi (ky - 23))"
      by (rule rne_real_mono)
    then have "(of_int (rne_real (x / 2 powi (ky - 23))) :: real)
                 \<le> of_int (rne_real (y / 2 powi (ky - 23)))"
      by (simp only: of_int_le_iff)
    then have "of_int (rne_real (x / 2 powi (ky - 23))) * 2 powi (ky - 23)
                 \<le> of_int (rne_real (y / 2 powi (ky - 23))) * (2 powi (ky - 23) :: real)"
      by (rule mult_right_mono) simp
    then show ?thesis
      using assms(1) y True unfolding quantize_def Let_def kx_def ky_def by simp
  next
    case False
    with le have lt: "kx + 1 \<le> ky" by simp
    then have "- 126 < ky" by (simp add: kx_def)
    then have ky: "ky = \<lfloor>log 2 y\<rfloor>" "- 126 \<le> \<lfloor>log 2 y\<rfloor>"
      unfolding ky_def by linarith+
    have "quantize x \<le> 2 powi (kx + 1)"
      unfolding kx_def using assms(1) by (rule quantize_upper)
    also have "\<dots> \<le> 2 powi ky" using lt by (intro power_int_increasing) simp_all
    also have "\<dots> \<le> quantize y"
      unfolding ky(1) using y ky(2) by (rule quantize_lower)
    finally show ?thesis .
  qed
qed

lemma quantize_zero: "quantize 0 = 0"
  by (simp add: quantize_def)

lemma quantize_mono:
  assumes "x \<le> y"
  shows "quantize x \<le> quantize y"
proof -
  consider "0 < x" | "x \<le> 0" "0 \<le> y" | "y < 0" by linarith
  then show ?thesis
  proof cases
    case 1
    then show ?thesis using assms by (rule quantize_mono_pos)
  next
    case 2
    from 2(1) have "0 \<le> quantize (- x)" by (intro quantize_nonneg) simp
    then have "quantize x \<le> 0" by (simp add: quantize_minus)
    also have "0 \<le> quantize y" using 2(2) by (rule quantize_nonneg)
    finally show ?thesis .
  next
    case 3
    then have "0 < - y" "- y \<le> - x" using assms by simp_all
    then have "quantize (- y) \<le> quantize (- x)" by (rule quantize_mono_pos)
    then show ?thesis by (simp add: quantize_minus)
  qed
qed

lemma rne_real_error: "\<bar>of_int (rne_real y) - y\<bar> \<le> 1 / 2"
proof -
  have "0 \<le> y - of_int \<lfloor>y\<rfloor>" "y - of_int \<lfloor>y\<rfloor> < 1" by linarith+
  then show ?thesis by (auto simp add: rne_real_def Let_def abs_le_iff)
qed

lemma quantize_error:
  "\<bar>quantize x - x\<bar> \<le> 2 powi (max \<lfloor>log 2 \<bar>x\<bar>\<rfloor> (- 126) - 23) / 2"
proof (cases "x = 0")
  case True
  then show ?thesis by (simp add: quantize_def)
next
  case False
  define e where "e = max \<lfloor>log 2 \<bar>x\<bar>\<rfloor> (- 126) - 23"
  have p: "(0::real) < 2 powi e" by simp
  have q: "quantize x = of_int (rne_real (x / 2 powi e)) * 2 powi e"
    using False unfolding quantize_def Let_def e_def by simp
  have "quantize x - x = (of_int (rne_real (x / 2 powi e)) - x / 2 powi e) * 2 powi e"
    unfolding q using p by (simp add: algebra_simps)
  then have "\<bar>quantize x - x\<bar> = \<bar>of_int (rne_real (x / 2 powi e)) - x / 2 powi e\<bar> * 2 powi e"
    using p by (simp add: abs_mult)
  also have "\<dots> \<le> 1 / 2 * 2 powi e"
    using rne_real_error [of "x / 2 powi e"] by (rule mult_right_mono) simp
  finally show ?thesis by (simp add: e_def)
qed

lemma quantize_repr:
  assumes "\<bar>m\<bar> < 2 ^ 24" "- 149 \<le> j"
  shows "quantize (of_int m * 2 powi j) = of_int m * 2 powi j"
proof (cases "m = 0")
  case True
  then show ?thesis by (simp add: quantize_def)
next
  case False
  define x :: real where "x = of_int m * 2 powi j"
  have x0: "x \<noteq> 0" using False by (simp add: x_def)
  define e where "e = max \<lfloor>log 2 \<bar>x\<bar>\<rfloor> (- 126) - 23"
  have "\<bar>x\<bar> = of_int \<bar>m\<bar> * 2 powi j" by (simp add: x_def abs_mult)
  also have "\<dots> < of_int (2 ^ 24) * 2 powi j"
    using assms(1) by (intro mult_strict_right_mono) (simp_all only: of_int_less_iff zero_less_power_int zero_less_numeral)
  also have "of_int (2 ^ 24) * 2 powi j = (2 powi 24 * 2 powi j :: real)" by simp
  also have "\<dots> = 2 powi (24 + j)" by (rule power_int_add [symmetric]) simp
  finally have "\<lfloor>log 2 \<bar>x\<bar>\<rfloor> < 24 + j"
    using x0 by (intro floor_log2_less) simp_all
  with assms(2) have e: "e \<le> j" by (simp add: e_def)
  define d where "d = nat (j - e)"
  have je: "j = e + int d" using e by (simp add: d_def)
  have p: "(2 powi j :: real) = 2 powi e * 2 ^ d"
    unfolding je by (subst power_int_add) simp_all
  have "x / 2 powi e = of_int m * 2 ^ d"
    by (simp add: x_def p)
  also have "\<dots> = of_int (m * 2 ^ d)" by simp
  finally have "rne_real (x / 2 powi e) = m * 2 ^ d"
    by (simp only: rne_real_of_int)
  then have "of_int (rne_real (x / 2 powi e)) * 2 powi e = x"
    by (simp add: x_def p)
  then show ?thesis
    using x0 unfolding quantize_def Let_def e_def [symmetric] x_def [symmetric] by simp
qed

lemma quantize_idem_pos:
  assumes "0 < x"
  shows "quantize (quantize x) = quantize x"
proof -
  define k where "k = max \<lfloor>log 2 x\<rfloor> (- 126)"
  define n where "n = rne_real (x / 2 powi (k - 23))"
  have q: "quantize x = of_int n * 2 powi (k - 23)"
    using assms unfolding quantize_def Let_def k_def n_def by simp
  have k: "- 126 \<le> k" by (simp add: k_def)
  have "0 \<le> x / 2 powi (k - 23)" using assms by simp
  then have "0 \<le> \<lfloor>x / 2 powi (k - 23)\<rfloor>" by simp
  with rne_real_bounds(1) [of "x / 2 powi (k - 23)"] have n0: "0 \<le> n"
    unfolding n_def by linarith
  have "of_int n * 2 powi (k - 23) \<le> (2 powi (k + 1) :: real)"
    using quantize_upper [OF assms] unfolding q k_def .
  also have "(2 powi (k + 1) :: real) = 2 powi (24 + (k - 23))"
    by (rule arg_cong [where f = "\<lambda>i. 2 powi i"]) simp
  also have "\<dots> = 2 powi 24 * 2 powi (k - 23)" by (rule power_int_add) simp
  finally have "(of_int n :: real) \<le> 2 powi 24"
    by (simp only: mult_le_cancel_right zero_less_power_int zero_less_numeral)
  then have "(of_int n :: real) \<le> of_int (2 ^ 24)" by simp
  then have n24: "n \<le> 2 ^ 24" by (simp only: of_int_le_iff)
  show ?thesis
  proof (cases "n = 2 ^ 24")
    case True
    then have "quantize x = 2 powi 24 * 2 powi (k - 23)" by (simp add: q)
    also have "\<dots> = 2 powi (24 + (k - 23))" by (rule power_int_add [symmetric]) simp
    also have "\<dots> = 2 powi (k + 1)"
      by (rule arg_cong [where f = "\<lambda>i. 2 powi i"]) simp
    finally have "quantize x = of_int 1 * 2 powi (k + 1)" by simp
    moreover have "quantize (of_int 1 * 2 powi (k + 1)) = of_int 1 * 2 powi (k + 1)"
      using k by (intro quantize_repr) simp_all
    ultimately show ?thesis by simp
  next
    case False
    with n24 n0 have "\<bar>n\<bar> < 2 ^ 24" by simp
    then have "quantize (of_int n * 2 powi (k - 23)) = of_int n * 2 powi (k - 23)"
      using k by (intro quantize_repr) simp_all
    then show ?thesis by (simp only: q)
  qed
qed

lemma quantize_idem: "quantize (quantize x) = quantize x"
proof -
  consider "0 < x" | "x = 0" | "0 < - x" by linarith
  then show ?thesis
  proof cases
    case 1
    then show ?thesis by (rule quantize_idem_pos)
  next
    case 2
    then show ?thesis by (simp add: quantize_zero)
  next
    case 3
    from quantize_idem_pos [OF 3] show ?thesis by (simp add: quantize_minus)
  qed
qed

lemma round32_Finite:
  assumes "round32 a = Finite v"
  shows "\<not> 2 ^ 128 - 2 ^ 103 \<le> a" "\<not> a \<le> - (2 ^ 128 - 2 ^ 103)" "v = quantize a"
  using assms by (simp_all add: round32_def split: if_splits)

lemma round32_between:
  assumes "round32 a = Finite a" "round32 b = Finite b" "a \<le> x" "x \<le> b"
  shows "\<exists>v. round32 x = Finite v \<and> a \<le> v \<and> v \<le> b"
proof -
  from round32_Finite [OF assms(1)] round32_Finite [OF assms(2)]
  have a: "\<not> a \<le> - (2 ^ 128 - 2 ^ 103)" "quantize a = a"
    and b: "\<not> 2 ^ 128 - 2 ^ 103 \<le> b" "quantize b = b"
    by simp_all
  from a(1) assms(3) have 1: "\<not> x \<le> - (2 ^ 128 - 2 ^ 103)" by linarith
  from b(1) assms(4) have 2: "\<not> 2 ^ 128 - 2 ^ 103 \<le> x" by linarith
  from 1 2 have "round32 x = Finite (quantize x)" by (simp only: round32_def if_False)
  moreover from quantize_mono [OF assms(3)] a(2) have "a \<le> quantize x" by simp
  moreover from quantize_mono [OF assms(4)] b(2) have "quantize x \<le> b" by simp
  ultimately show ?thesis by blast
qed

lemma round32_nat: "n < 2 ^ 24 \<Longrightarrow> round32 (real n) = Finite (real n)"
  using round32_dyadic [of "int n" 0] by simp

lemma round32_neg_nat: "n < 2 ^ 24 \<Longrightarrow> round32 (- real n) = Finite (- real n)"
  using round32_dyadic [of "- int n" 0] by simp

subsection \<open>The range of the entries of the sigmoid table\<close>

lemma exp_one_le: "exp 1 \<le> (273 / 100 :: real)"
proof -
  from Maclaurin_exp_le [of 1 6] obtain t :: real where
    t: "\<bar>t\<bar> \<le> \<bar>1\<bar>" and e: "exp 1 = (\<Sum>m<6. 1 ^ m / fact m) + exp t / fact 6 * 1 ^ 6"
    by blast
  from t have "t \<le> 1" by simp
  then have "exp t \<le> exp 1" by simp
  also have "\<dots> \<le> 3" by (rule exp_le)
  finally have "exp t / fact 6 \<le> 3 / fact 6" by (simp add: divide_right_mono)
  moreover have "(\<Sum>m<6. 1 ^ m / fact m) = (163 / 60 :: real)"
    by (simp add: eval_nat_numeral lessThan_Suc)
  ultimately have "exp 1 \<le> 163 / 60 + 3 / (fact 6 :: real)" using e by simp
  also have "\<dots> \<le> 273 / 100" by (simp add: eval_nat_numeral)
  finally show ?thesis .
qed

lemma exp_88: "exp 88 < (2 ^ 128 - 2 ^ 103 :: real)"
proof -
  have "exp (88 :: real) = exp (of_nat 88 * 1)" by simp
  also have "\<dots> = exp 1 ^ 88" by (rule exp_of_nat_mult)
  also have "\<dots> \<le> (273 / 100) ^ 88" using exp_one_le by (intro power_mono) simp_all
  also have "\<dots> < 2 ^ 128 - 2 ^ 103" by (simp add: power_divide)
  finally show ?thesis .
qed

lemma expTable_entry_range:
  assumes "r < N" "N < 2 ^ 16" "M \<le> 88"
  shows "\<exists>v. expTable_entry N M r = Finite v \<and> 0 \<le> v \<and> v \<le> 1"
proof -
  have r: "f32_of_nat r = Finite (real r)" and N: "f32_of_nat N = Finite (real N)"
    and M: "f32_of_nat M = Finite (real M)"
    using assms by (simp_all add: f32_of_nat_def round32_nat)
  have M': "round32 (real M) = Finite (real M)" "round32 (- real M) = Finite (- real M)"
    using assms(3) by (simp_all add: round32_nat round32_neg_nat)
  have N0: "real N \<noteq> 0" using assms(1) by simp
  have "0 \<le> real r / real N" "real r / real N \<le> 1" using assms(1) by simp_all
  with round32_between [OF round32_values(1) round32_values(2)]
  obtain u where u: "round32 (real r / real N) = Finite u" "0 \<le> u" "u \<le> 1" by blast
  have "0 \<le> u * 2" "u * 2 \<le> 2" using u by simp_all
  with round32_between [OF round32_values(1) round32_values(3)]
  obtain u2 where u2: "round32 (u * 2) = Finite u2" "0 \<le> u2" "u2 \<le> 2" by blast
  have "- 1 \<le> u2 - 1" "u2 - 1 \<le> 1" using u2 by simp_all
  with round32_between [OF round32_values(11) round32_values(2)]
  obtain w where w: "round32 (u2 - 1) = Finite w" "- 1 \<le> w" "w \<le> 1" by blast
  have "(- 1) * real M \<le> w * real M" "w * real M \<le> 1 * real M"
    using w(2,3) by (intro mult_right_mono; simp)+
  then have "- real M \<le> w * real M" "w * real M \<le> real M" by simp_all
  with round32_between [OF M'(2) M'(1)]
  obtain z where z: "round32 (w * real M) = Finite z" "- real M \<le> z" "z \<le> real M" by blast
  have arg: "f32_mul (f32_sub (f32_mul (f32_div (f32_of_nat r) (f32_of_nat N)) (Finite 2))
                        (Finite 1)) (f32_of_nat M) = Finite z"
    using N0 by (simp add: r N M f32_div_def f32_mul_def f32_sub_def f32_add_def f32_neg_def u u2 w z)
  from z(3) assms(3) have "z \<le> 88" by simp
  then have "exp z \<le> exp 88" by simp
  with exp_88 have hi: "\<not> 2 ^ 128 - 2 ^ 103 \<le> exp z" by linarith
  have "(0::real) < exp z" by simp
  moreover have "- ((2::real) ^ 128 - 2 ^ 103) \<le> 0" by simp
  ultimately have lo: "\<not> exp z \<le> - (2 ^ 128 - 2 ^ 103)" by linarith
  define q where "q = quantize (exp z)"
  from hi lo have s: "round32 (exp z) = Finite q" by (simp only: round32_def if_False q_def)
  have q0: "0 \<le> q" unfolding q_def by (intro quantize_nonneg) simp
  have qq: "quantize q = q" unfolding q_def by (rule quantize_idem)
  have entry: "expTable_entry N M r = f32_div (Finite q) (round32 (q + 1))"
    unfolding expTable_entry_def arg by (simp add: f32_exp_def s f32_add_def)
  have nm: "\<not> q + 1 \<le> - (2 ^ 128 - 2 ^ 103)"
  proof -
    have "- ((2::real) ^ 128 - 2 ^ 103) \<le> 0" by simp
    with q0 show ?thesis by linarith
  qed
  show ?thesis
  proof (cases "2 ^ 128 - 2 ^ 103 \<le> q + 1")
    case True
    then have "round32 (q + 1) = PInf" by (simp only: round32_def if_True)
    then show ?thesis by (simp add: entry f32_div_def)
  next
    case False
    define d where "d = quantize (q + 1)"
    from False nm have d: "round32 (q + 1) = Finite d" by (simp only: round32_def if_False d_def)
    have "quantize 1 \<le> d" unfolding d_def using q0 by (intro quantize_mono) simp
    moreover have "quantize 1 = 1" using round32_Finite(3) [OF round32_values(2)] by simp
    ultimately have d1: "1 \<le> d" by simp
    have "quantize q \<le> d" unfolding d_def by (intro quantize_mono) simp
    then have qd: "q \<le> d" by (simp only: qq)
    have "0 \<le> q / d" "q / d \<le> 1" using q0 d1 qd by simp_all
    with round32_between [OF round32_values(1) round32_values(2)]
    obtain v where v: "round32 (q / d) = Finite v" "0 \<le> v" "v \<le> 1" by blast
    from d1 have "d \<noteq> 0" by simp
    then have "expTable_entry N M r = Finite v"
      by (simp add: entry d f32_div_def v)
    with v show ?thesis by blast
  qed
qed

lemma expTable_entry_midpoint:
  assumes "2 * r = N" "0 < N" "N < 2 ^ 16" "M < 2 ^ 24"
  shows "expTable_entry N M r = Finite (1 / 2)"
proof -
  have r: "f32_of_nat r = Finite (real r)" and N: "f32_of_nat N = Finite (real N)"
    and M: "f32_of_nat M = Finite (real M)"
    using assms by (simp_all add: f32_of_nat_def round32_nat)
  have "real r / real N = 1 / 2" using assms(1,2) by (simp add: field_simps flip: of_nat_mult)
  then show ?thesis
    using assms(2)
    by (simp add: expTable_entry_def r N M f32_div_def f32_mul_def f32_sub_def f32_add_def
        f32_neg_def f32_exp_def round32_values Let_def)
qed

subsection \<open>The loops\<close>

lemma expTable_loop_returns:
  "N < 2 ^ 16 \<Longrightarrow> unat r \<le> N \<Longrightarrow> length tab = N \<Longrightarrow>
   \<exists>t. expTable_loop N M r tab = Some t \<and> length t = N \<and>
       (\<forall>k<N. t ! k = (if unat r \<le> k then expTable_entry N M k else tab ! k))"
proof (induction "N - unat r" arbitrary: r tab)
  case 0
  then have "\<not> unat r < N" by simp
  then have "expTable_loop N M r tab = Some tab"
    by (subst expTable_loop.simps) simp
  with 0 show ?case by auto
next
  case (Suc d)
  then have lt: "unat r < N" by simp
  with Suc.prems have "unat r + 1 < 2 ^ 16" by simp
  then have step: "unat (r + 1) = unat r + 1"
    by (simp add: unat_word_ariths)
  let ?v = "expTable_entry N M (unat r)"
  have unfold: "expTable_loop N M r tab = expTable_loop N M (r + 1) (tab[unat r := ?v])"
    using lt by (subst expTable_loop.simps) simp
  have "\<exists>t. expTable_loop N M (r + 1) (tab[unat r := ?v]) = Some t \<and> length t = N \<and>
       (\<forall>k<N. t ! k = (if unat (r + 1) \<le> k then expTable_entry N M k
                         else (tab[unat r := ?v]) ! k))"
    using Suc.hyps(2) Suc.prems lt step by (intro Suc.hyps(1)) simp_all
  then obtain t where t: "expTable_loop N M (r + 1) (tab[unat r := ?v]) = Some t" "length t = N"
    and tk: "\<And>k. k < N \<Longrightarrow> t ! k = (if unat (r + 1) \<le> k then expTable_entry N M k
                                      else (tab[unat r := ?v]) ! k)"
    by blast
  have "\<forall>k<N. t ! k = (if unat r \<le> k then expTable_entry N M k else tab ! k)"
  proof (intro allI impI)
    fix k assume k: "k < N"
    show "t ! k = (if unat r \<le> k then expTable_entry N M k else tab ! k)"
    proof (cases "k = unat r")
      case True
      then show ?thesis using tk [OF k] step k Suc.prems by simp
    next
      case False
      then show ?thesis using tk [OF k] step by auto
    qed
  qed
  with t unfold show ?case by simp
qed

lemma expTable_loop_Some_bound:
  assumes "expTable_loop N M r tab = Some t"
  shows "N < 2 ^ 16"
proof (rule expTable_loop.raw_induct [where P = "\<lambda>N M r tab t. N < 2 ^ 16", OF _ assms])
  fix f :: "nat \<Rightarrow> nat \<Rightarrow> 16 word \<Rightarrow> f32 list \<Rightarrow> f32 list option"
  fix N M :: nat and r :: "16 word" and tab t :: "f32 list"
  assume IH: "\<And>N M r tab t. f N M r tab = Some t \<Longrightarrow> N < 2 ^ 16"
  assume body: "(if unat r < N
      then f N M (r + 1) (tab[unat r := expTable_entry N M (unat r)])
      else Some tab) = Some t"
  show "N < 2 ^ 16"
  proof (cases "unat r < N")
    case True
    with body have "\<exists>tab'. f N M (r + 1) tab' = Some t"
      by auto
    then show ?thesis using IH by blast
  next
    case False
    moreover have "unat r < 2 ^ 16" using unsigned_less [of r] by simp
    ultimately show ?thesis by simp
  qed
qed

lemma expTable_loop_diverges:
  "2 ^ 16 \<le> N \<Longrightarrow> expTable_loop N M r tab = None"
  using expTable_loop_Some_bound [of N M r tab] by (cases "expTable_loop N M r tab") auto

lemma poll_returns:
  "iter_max \<le> seen (k + j) \<Longrightarrow> poll seen iter_max k = Some ()"
proof (induction j arbitrary: k)
  case 0
  then show ?case by (subst poll.simps) simp
next
  case (Suc j)
  then have "poll seen iter_max (Suc k) = Some ()" by simp
  then show ?case by (subst poll.simps) simp
qed

lemma length_generate: "length (fst (generate f xs g)) = length xs"
  by (induction xs arbitrary: g) (simp_all add: case_prod_beta Let_def)

lemma set_generate: "y \<in> set (fst (generate f xs g)) \<Longrightarrow> \<exists>g'. y = fst (f g')"
  by (induction xs arbitrary: g) (auto simp add: case_prod_beta Let_def)

lemma nth_generate:
  "k < length xs \<Longrightarrow>
   fst (generate f xs g) ! k = fst (f (((\<lambda>g. snd (f g)) ^^ k) g))"
proof (induction xs arbitrary: k g)
  case Nil
  then show ?case by simp
next
  case (Cons x xs)
  show ?case
  proof (cases k)
    case 0
    then show ?thesis by (simp add: case_prod_beta Let_def)
  next
    case (Suc j)
    with Cons.prems have "j < length xs" by simp
    have "((\<lambda>g. snd (f g)) ^^ j) (snd (f g)) = snd (f (((\<lambda>g. snd (f g)) ^^ j) g))"
      using funpow_swap1 [of "\<lambda>g. snd (f g)" j g] by simp
    with Cons.IH [OF \<open>j < length xs\<close>, of "snd (f g)"] Suc show ?thesis
      by (simp add: case_prod_beta Let_def)
  qed
qed

lemma apply_store_frame:
  "length (pjLayerValues (apply_store x d)) = length (pjLayerValues d)"
  "length (bpWeights (apply_store x d)) = length (bpWeights d)"
  "expTable (apply_store x d) = expTable d"
  "huffmanTree (apply_store x d) = huffmanTree d"
  by (cases x; simp)+

lemma fold_apply_store_frame:
  "length (pjLayerValues (fold apply_store xs d)) = length (pjLayerValues d)"
  "length (bpWeights (fold apply_store xs d)) = length (bpWeights d)"
  "expTable (fold apply_store xs d) = expTable d"
  "huffmanTree (fold apply_store xs d) = huffmanTree d"
  by (induction xs arbitrary: d) (simp_all add: apply_store_frame)

lemma make_expTable_closed:
  assumes "N < 2 ^ 16"
  shows "make_expTable N M = Some (map (expTable_entry N M) [0..<N])"
proof -
  from expTable_loop_returns [of N 0 "replicate N (Finite 0)" M] assms
  obtain t where t: "expTable_loop N M 0 (replicate N (Finite 0)) = Some t" "length t = N"
    and tk: "\<forall>k<N. t ! k = expTable_entry N M k"
    by auto
  have "t = map (expTable_entry N M) [0..<N]"
    using t(2) tk by (intro nth_equalityI) simp_all
  with t(1) show ?thesis by (simp add: make_expTable_def)
qed

lemma make_expTable_None: "2 ^ 16 \<le> N \<Longrightarrow> make_expTable N M = None"
  by (simp add: make_expTable_def expTable_loop_diverges)

lemma init_data_Ok:
  assumes "init_data e s c m g tr = Ok tr1 d"
  shows "tr1 = tr @ [New_bpWeights (unat m), New_pjLayerValues (unat m),
                     New_expTable (expTableSize s)]
                  @ (if withHS s then [New_huffmanTree] else [])
                  @ [New_processedWords, New_alpha]"
    and "bpWeights d = replicate (unat m) (Finite 0)"
    and "pjLayerValues d =
           fst (generate (rndMatrixInitializer e) (replicate (unat m) (Finite 0)) g)"
    and "make_expTable (expTableSize s) (expValueMax s) = Some (expTable d)"
    and "huffmanTree d \<noteq> None \<longleftrightarrow> withHS s"
    and "settings d = s" and "corpus d = c"
  using assms
  by (auto simp add: init_data_def Let_def split: option.splits sum.splits if_splits)

lemma init_data_Throw:
  assumes "init_data e s c m g tr = Throw tr1 x"
  shows "tr1 = tr @ [New_bpWeights (unat m), New_pjLayerValues (unat m),
                     New_expTable (expTableSize s)]"
    and "withHS s" and "huffmanTree_t e (frequency c) = Inl x"
  using assms
  by (auto simp add: init_data_def Let_def split: option.splits sum.splits if_splits)

lemma init_data_Stuck:
  "init_data e s c m g tr = Stuck \<longleftrightarrow> make_expTable (expTableSize s) (expValueMax s) = None"
  by (auto simp add: init_data_def Let_def split: option.splits sum.splits if_splits)

lemma init_data_returns:
  assumes "expTableSize s < 2 ^ 16"
    and "withHS s \<longrightarrow> (\<exists>h. huffmanTree_t e (frequency c) = Inr h)"
  shows "\<exists>tr1 d. init_data e s c m g tr = Ok tr1 d"
  using assms by (auto simp add: init_data_def make_expTable_closed Let_def)

lemma create_threads_result:
  "(\<exists>rs. create_threads ctor per n thr i tr acc =
           Ok (tr @ map (\<lambda>r. New_trainThread (fst r) (snd r)) rs) (acc @ rs)) \<or>
   (\<exists>rs x. create_threads ctor per n thr i tr acc =
           Throw (tr @ map (\<lambda>r. New_trainThread (fst r) (snd r)) rs) x \<and> (\<exists>r. ctor r = Some x))"
proof (induction ctor per n thr i tr acc rule: create_threads.induct)
  case (1 ctor per n thr i tr acc)
  let ?from = "per * of_nat i"
  let ?to = "min (per * (of_nat i + 1) - 1) (n - 1)"
  show ?case
  proof (cases "i < thr")
    case False
    then have "create_threads ctor per n thr i tr acc = Ok (tr @ map (\<lambda>r. New_trainThread (fst r) (snd r)) []) (acc @ [])"
      by (subst create_threads.simps) simp
    then show ?thesis by blast
  next
    case lt: True
    show ?thesis
    proof (cases "ctor (?from, ?to)")
      case (Some x)
      with lt have "create_threads ctor per n thr i tr acc = Throw (tr @ map (\<lambda>r. New_trainThread (fst r) (snd r)) []) x"
        by (subst create_threads.simps) (simp add: Let_def)
      with Some show ?thesis by blast
    next
      case None
      show ?thesis
      proof (cases "n - 1 = ?to")
        case True
        with lt None have "create_threads ctor per n thr i tr acc =
            Ok (tr @ map (\<lambda>r. New_trainThread (fst r) (snd r)) [(?from, ?to)]) (acc @ [(?from, ?to)])"
          by (subst create_threads.simps) (simp add: Let_def)
        then show ?thesis by blast
      next
        case False
        with lt None have eq: "create_threads ctor per n thr i tr acc =
            create_threads ctor per n thr (Suc i) (tr @ [New_trainThread ?from ?to]) (acc @ [(?from, ?to)])"
          by (subst create_threads.simps) (simp add: Let_def)
        from "1.IH" [OF lt refl refl None False]
        consider rs where "create_threads ctor per n thr (Suc i) (tr @ [New_trainThread ?from ?to]) (acc @ [(?from, ?to)]) =
             Ok ((tr @ [New_trainThread ?from ?to]) @ map (\<lambda>r. New_trainThread (fst r) (snd r)) rs) ((acc @ [(?from, ?to)]) @ rs)"
          | rs x where "create_threads ctor per n thr (Suc i) (tr @ [New_trainThread ?from ?to]) (acc @ [(?from, ?to)]) =
             Throw ((tr @ [New_trainThread ?from ?to]) @ map (\<lambda>r. New_trainThread (fst r) (snd r)) rs) x"
              "\<exists>r. ctor r = Some x"
          by blast
        then show ?thesis
        proof cases
          case 1
          then have "create_threads ctor per n thr i tr acc =
             Ok (tr @ map (\<lambda>r. New_trainThread (fst r) (snd r)) ((?from, ?to) # rs)) (acc @ ((?from, ?to) # rs))"
            using eq by simp
          then show ?thesis by blast
        next
          case 2
          then have "create_threads ctor per n thr i tr acc =
             Throw (tr @ map (\<lambda>r. New_trainThread (fst r) (snd r)) ((?from, ?to) # rs)) x"
            using eq by simp
          with 2(2) show ?thesis by blast
        qed
      qed
    qed
  qed
qed

lemma create_threads_not_Stuck: "create_threads ctor per n thr i tr acc \<noteq> Stuck"
  using create_threads_result [of ctor per n thr i tr acc] by auto

lemma create_threads_no_throw:
  "(\<forall>r. ctor r = None) \<Longrightarrow> create_threads ctor per n thr i tr acc \<noteq> Throw tr' x"
  using create_threads_result [of ctor per n thr i tr acc] by auto

lemma run_threads_Ok:
  assumes "run_threads e d ranges tr = Ok tr' d'"
  shows "tr' = tr @ map Launch [0..<length ranges] @ map Join [0..<length ranges]"
    and "d' = fold apply_store (worker e d ranges) d"
  using assms by (auto simp add: run_threads_def split: option.splits if_splits)

lemma run_threads_not_Throw: "run_threads e d ranges tr \<noteq> Throw tr' x"
  by (auto simp add: run_threads_def split: option.splits if_splits)

lemma run_threads_not_Stuck:
  assumes "verbose (settings d) \<longrightarrow> (\<exists>k. int (iterations (settings d)) \<le> iter_seen e k)"
  shows "run_threads e d ranges tr \<noteq> Stuck"
proof (cases "verbose (settings d)")
  case False
  then show ?thesis by (simp add: run_threads_def)
next
  case True
  with assms obtain k where "int (iterations (settings d)) \<le> iter_seen e (0 + k)" by auto
  then have "poll (iter_seen e) (int (iterations (settings d))) 0 = Some ()"
    by (rule poll_returns)
  then show ?thesis by (simp add: run_threads_def)
qed

subsection \<open>Evaluating the partition size\<close>

lemma bitlen_nat_0: "bitlen_nat 0 = 0"
  by (subst bitlen_nat.simps) simp

lemma bitlen_nat_Suc_0: "bitlen_nat (Suc 0) = 1"
  by (subst bitlen_nat.simps) (simp add: bitlen_nat_0)

lemma bitlen_nat_One: "bitlen_nat (numeral Num.One) = 1"
  by (simp add: bitlen_nat_Suc_0)

lemma bitlen_nat_Bit0: "bitlen_nat (numeral (Num.Bit0 k)) = Suc (bitlen_nat (numeral k))"
  by (subst bitlen_nat.simps) simp

lemma bitlen_nat_Bit1: "bitlen_nat (numeral (Num.Bit1 k)) = Suc (bitlen_nat (numeral k))"
  by (subst bitlen_nat.simps) simp

lemmas bitlen_nat_eval =
  bitlen_nat_0 bitlen_nat_Suc_0 bitlen_nat_One bitlen_nat_Bit0 bitlen_nat_Bit1

lemma float_of_size_1: "float_of_size (Suc 0) = (8388608, 8388608)"
  by (simp add: float_of_size_def b32_def rne_def bitlen_nat_eval)

lemma fdiv_one_one: "fdiv (8388608, 8388608) (8388608, 8388608) = (8388608, 8388608)"
  by (simp add: fdiv_def b32_def rne_def bitlen_nat_eval)

lemma per_of_1_1: "per_of (Suc 0) (Suc 0) = Some 1"
  by (simp add: per_of_def float_of_size_1 fdiv_one_one fceil_def)

lemma float_of_size_big: "float_of_size 16777217 = (16777216, 1)"
  by (simp add: float_of_size_def b32_def rne_def bitlen_nat_eval)

lemma per_of_big: "per_of 16777217 (Suc 0) = Some 16777216"
  by (simp add: per_of_def float_of_size_1 float_of_size_big fdiv_def fceil_def b32_def rne_def bitlen_nat_eval)

subsection \<open>The rounding on known values\<close>

text \<open>
  The binary32 numbers nearest to \<open>1/3\<close> and \<open>1/10\<close> are \<open>11184811 / 2\<^sup>2\<^sup>5\<close> and
  \<open>13421773 / 2\<^sup>2\<^sup>7\<close>; \<open>16777219\<close> is a tie and rounds to the even \<open>16777220\<close>.
\<close>

lemma b32_third: "b32 1 3 = (11184811, 33554432)"
  by (simp add: b32_def rne_def bitlen_nat_eval)

lemma b32_tenth: "b32 1 10 = (13421773, 134217728)"
  by (simp add: b32_def rne_def bitlen_nat_eval)

lemma float_of_size_ties: "float_of_size 16777219 = (16777220, 1)"
  by (simp add: float_of_size_def b32_def rne_def bitlen_nat_eval)

subsection \<open>The partition of fewer than \<open>2\<^sup>2\<^sup>4\<close> documents\<close>

text \<open>
  Below \<open>2\<^sup>2\<^sup>4\<close> the conversions to \<^verbatim>\<open>float\<close> are exact and the rounded quotient has the
  ceiling of the exact one, so that \<^verbatim>\<open>per\<close> is \<open>\<lceil>n / threads\<rceil>\<close>. The loop then creates
  \<open>\<lceil>n / per\<rceil>\<close> workers, at most \<^verbatim>\<open>threads\<close>; all ranges but the last have \<^verbatim>\<open>per\<close>
  documents, and every document index below \<open>n\<close> lies in exactly one range.
\<close>

lemma bitlen_nat_bounds:
  "0 < n \<Longrightarrow> 2 ^ (bitlen_nat n - 1) \<le> n \<and> n < 2 ^ bitlen_nat n"
proof (induction n rule: bitlen_nat.induct)
  case (1 n)
  show ?case
  proof (cases "n div 2 = 0")
    case True
    with 1(2) have "n = 1" by auto
    then show ?thesis by (simp add: bitlen_nat_Suc_0)
  next
    case False
    then have m: "0 < n div 2" by simp
    from 1(2) have n: "n \<noteq> 0" by simp
    from 1(1) [OF n m] have lo: "2 ^ (bitlen_nat (n div 2) - 1) \<le> n div 2"
      and hi: "n div 2 < 2 ^ bitlen_nat (n div 2)" by simp_all
    have pos: "0 < bitlen_nat (n div 2)"
      using m by (subst bitlen_nat.simps) simp
    have eq: "bitlen_nat n = Suc (bitlen_nat (n div 2))"
      using n by (subst bitlen_nat.simps) simp
    have "(2::nat) ^ bitlen_nat (n div 2) = 2 * 2 ^ (bitlen_nat (n div 2) - 1)"
      using pos by (cases "bitlen_nat (n div 2)") simp_all
    with lo have "(2::nat) ^ bitlen_nat (n div 2) \<le> 2 * (n div 2)" by simp
    also have "\<dots> \<le> n" by simp
    finally have 1: "2 ^ (bitlen_nat n - 1) \<le> n" by (simp add: eq)
    have "n < 2 * (n div 2 + 1)" by presburger
    also have "\<dots> \<le> 2 * 2 ^ bitlen_nat (n div 2)" using hi by simp
    finally have "n < 2 ^ bitlen_nat n" by (simp add: eq)
    with 1 show ?thesis by simp
  qed
qed

lemma b32_exponent:
  fixes p q :: nat
  assumes "0 < p" "0 < q"
  defines "d \<equiv> int (bitlen_nat p) - int (bitlen_nat q)"
  defines "E \<equiv> (if q * 2 ^ nat d \<le> p * 2 ^ nat (- d) then d else d - 1)"
  shows "q * 2 ^ nat E \<le> p * 2 ^ nat (- E)"
proof (cases "q * 2 ^ nat d \<le> p * 2 ^ nat (- d)")
  case True
  then show ?thesis by (simp add: E_def)
next
  case False
  then have E: "E = d - 1" by (simp add: E_def)
  from bitlen_nat_bounds [OF assms(1)] have p: "2 ^ (bitlen_nat p - 1) \<le> p" by simp
  from bitlen_nat_bounds [OF assms(2)] have q: "q \<le> 2 ^ bitlen_nat q" by simp
  have bp: "0 < bitlen_nat p" using assms(1) by (subst bitlen_nat.simps) simp
  show ?thesis
  proof (cases "1 \<le> d")
    case True
    then have n1: "nat (d - 1) = bitlen_nat p - bitlen_nat q - 1"
      and n2: "nat (- (d - 1)) = 0" "nat (1 - d) = 0"
      by (simp_all add: d_def)
    from True have le: "bitlen_nat q + 1 \<le> bitlen_nat p" by (simp add: d_def)
    have "q * 2 ^ (bitlen_nat p - bitlen_nat q - 1)
            \<le> 2 ^ bitlen_nat q * 2 ^ (bitlen_nat p - bitlen_nat q - 1)"
      using q by (rule mult_right_mono) simp
    also have "\<dots> = 2 ^ (bitlen_nat q + (bitlen_nat p - bitlen_nat q - 1))"
      by (simp add: power_add)
    also have "bitlen_nat q + (bitlen_nat p - bitlen_nat q - 1) = bitlen_nat p - 1"
      using le by simp
    also note p
    finally show ?thesis by (simp add: E n1 n2)
  next
    case False
    then have n1: "nat (d - 1) = 0"
      and n2: "nat (- (d - 1)) = bitlen_nat q - bitlen_nat p + 1"
        "nat (1 - d) = bitlen_nat q - bitlen_nat p + 1"
      by (simp_all add: d_def)
    from False have le: "bitlen_nat p \<le> bitlen_nat q" by (simp add: d_def)
    have "bitlen_nat q = (bitlen_nat p - 1) + (bitlen_nat q - bitlen_nat p + 1)"
      using le bp by simp
    then have "(2::nat) ^ bitlen_nat q
                 = 2 ^ (bitlen_nat p - 1) * 2 ^ (bitlen_nat q - bitlen_nat p + 1)"
      by (metis power_add)
    also have "\<dots> \<le> p * 2 ^ (bitlen_nat q - bitlen_nat p + 1)"
      using p by (rule mult_right_mono) simp
    finally have "q \<le> p * 2 ^ (bitlen_nat q - bitlen_nat p + 1)"
      using q by simp
    then show ?thesis by (simp add: E n1 n2)
  qed
qed

lemma b32_small:
  fixes p q :: nat
  assumes "0 < p" "0 < q" "p < q * 2 ^ 24"
  shows "\<exists>t. b32 p q = (rne (p * 2 ^ t) q, 2 ^ t) \<and> q * 2 ^ 23 \<le> p * 2 ^ t"
proof -
  define d where "d = int (bitlen_nat p) - int (bitlen_nat q)"
  define E where "E = (if q * 2 ^ nat d \<le> p * 2 ^ nat (- d) then d else d - 1)"
  have B: "q * 2 ^ nat E \<le> p * 2 ^ nat (- E)"
    unfolding E_def d_def using assms(1,2) by (rule b32_exponent)
  have E23: "E \<le> 23"
  proof (rule ccontr)
    assume "\<not> E \<le> 23"
    then have "24 \<le> nat E" and "nat (- E) = 0" by simp_all
    then have "q * 2 ^ 24 \<le> q * 2 ^ nat E"
      by (intro mult_left_mono power_increasing) simp_all
    also have "\<dots> \<le> p" using B \<open>nat (- E) = 0\<close> by simp
    finally show False using assms(3) by simp
  qed
  define t where "t = nat (23 - E)"
  have e: "nat (E - 23) = 0" "nat (- (E - 23)) = t" "nat (23 - E) = t"
    using E23 by (simp_all add: t_def)
  have val: "b32 p q = (rne (p * 2 ^ t) q, 2 ^ t)"
    using assms(1) unfolding b32_def Let_def d_def [symmetric] E_def [symmetric]
    by (simp add: e)
  have bound: "q * 2 ^ 23 \<le> p * 2 ^ t"
  proof (cases "0 \<le> E")
    case True
    then have s: "23 = nat E + t" and z: "nat (- E) = 0"
      using E23 by (simp_all add: t_def)
    have "q * 2 ^ 23 = (q * 2 ^ nat E) * 2 ^ t"
      by (subst s) (simp add: power_add)
    also have "\<dots> \<le> p * 2 ^ t"
      using B z by (intro mult_right_mono) simp_all
    finally show ?thesis .
  next
    case False
    then have s: "t = nat (- E) + 23" and z: "nat E = 0"
      by (simp_all add: t_def)
    have "q * 2 ^ 23 \<le> (p * 2 ^ nat (- E)) * 2 ^ 23"
      using B z by (intro mult_right_mono) simp_all
    also have "\<dots> = p * 2 ^ t"
      by (subst s) (simp add: power_add)
    finally show ?thesis .
  qed
  from val bound show ?thesis by blast
qed

lemma rne_one: "rne p (Suc 0) = p"
  by (simp add: rne_def)

lemma rne_le:
  assumes "0 < q" "p \<le> k * q"
  shows "rne p q \<le> k"
proof (cases "p div q < k")
  case True
  then show ?thesis by (simp add: rne_def Let_def)
next
  case False
  moreover from assms have "p div q \<le> k"
    by (metis div_le_mono div_mult_self_is_m)
  ultimately have f: "p div q = k" by simp
  have "p = p div q * q + p mod q" by simp
  with f assms(2) have "p mod q = 0" by simp
  with f assms(1) show ?thesis by (simp add: rne_def Let_def)
qed

lemma rne_ge:
  assumes "0 < q" "k * q \<le> p" "q < 2 * (p - k * q)"
  shows "k + 1 \<le> rne p q"
proof (cases "k < p div q")
  case True
  then show ?thesis by (simp add: rne_def Let_def)
next
  case False
  moreover from assms(1,2) have "k \<le> p div q"
    by (metis div_le_mono div_mult_self_is_m)
  ultimately have f: "p div q = k" by simp
  have "p = p div q * q + p mod q" by simp
  with f have "p mod q = p - k * q" by simp
  with assms(3) have "q < 2 * (p mod q)" by simp
  with f show ?thesis by (simp add: rne_def Let_def)
qed

lemma float_of_size_exact:
  assumes "0 < n" "n < 2 ^ 24"
  shows "\<exists>k. float_of_size n = (n * 2 ^ k, 2 ^ k)"
proof -
  from b32_small [of n 1] assms
  obtain t where "b32 n 1 = (rne (n * 2 ^ t) 1, 2 ^ t)" by auto
  then have "float_of_size n = (n * 2 ^ t, 2 ^ t)"
    by (simp add: float_of_size_def rne_one)
  then show ?thesis by blast
qed

lemma ceil_div_bounds:
  fixes n w :: nat
  assumes "0 < n" "0 < w"
  shows "((n + w - 1) div w - 1) * w < n" and "n \<le> (n + w - 1) div w * w"
    and "0 < (n + w - 1) div w"
proof -
  define c where "c = (n + w - 1) div w"
  have dm: "n + w - 1 = c * w + (n + w - 1) mod w"
    by (simp add: c_def)
  have r: "(n + w - 1) mod w < w" using assms(2) by simp
  from dm r assms show "0 < (n + w - 1) div w"
    unfolding c_def [symmetric] by (cases c) auto
  then have c: "0 < c" by (simp add: c_def)
  from dm r have "n + w - 1 < c * w + w" by simp
  then have "n \<le> c * w" using assms by simp
  then show "n \<le> (n + w - 1) div w * w" by (simp add: c_def)
  have "c * w \<le> n + w - 1" using dm by simp
  moreover have "c * w = (c - 1) * w + w" using c by (cases c) simp_all
  ultimately have "(c - 1) * w + w \<le> n + w - 1" by simp
  then have "(c - 1) * w < n" using assms by simp
  then show "((n + w - 1) div w - 1) * w < n" by (simp add: c_def)
qed

lemma per_of_exact:
  assumes "0 < n" "n < 2 ^ 24" "0 < w" "w < 2 ^ 24"
  shows "per_of n w = Some (of_nat ((n + w - 1) div w))"
proof -
  define c where "c = (n + w - 1) div w"
  from ceil_div_bounds [OF assms(1,3)]
  have lo: "(c - 1) * w < n" and hi: "n \<le> c * w" and cpos: "0 < c"
    by (simp_all add: c_def)
  from float_of_size_exact [OF assms(1,2)] obtain k where
    fn: "float_of_size n = (n * 2 ^ k, 2 ^ k)" by blast
  from float_of_size_exact [OF assms(3,4)] obtain j where
    fw: "float_of_size w = (w * 2 ^ j, 2 ^ j)" by blast
  define C :: nat where "C = 2 ^ k * 2 ^ j"
  have Cpos: "0 < C" by (simp add: C_def)
  have quot: "fdiv (float_of_size n) (float_of_size w) = b32 (n * C) (w * C)"
    by (simp add: fdiv_def fn fw C_def ac_simps)
  have "n < w * 2 ^ 24"
  proof -
    have "n < 1 * 2 ^ 24" using assms(2) by simp
    also have "\<dots> \<le> w * 2 ^ 24" using assms(3) by (intro mult_right_mono) simp_all
    finally show ?thesis .
  qed
  then have "n * C < w * 2 ^ 24 * C" using Cpos by simp
  then have small: "n * C < w * C * 2 ^ 24" by (simp add: ac_simps)
  from b32_small [OF _ _ small] assms(1,3) Cpos
  obtain t where val: "b32 (n * C) (w * C) = (rne (n * C * 2 ^ t) (w * C), 2 ^ t)"
    and bound: "w * C * 2 ^ 23 \<le> n * C * 2 ^ t"
    by auto
  from bound have "(w * 2 ^ 23) * C \<le> (n * 2 ^ t) * C" by (simp add: ac_simps)
  then have "w * 2 ^ 23 \<le> n * 2 ^ t" using Cpos by simp
  also have "n * 2 ^ t < 2 ^ 24 * 2 ^ t" using assms(2) by simp
  finally have "w * 2 ^ 23 < 2 * 2 ^ t * 2 ^ 23" by simp
  then have wt: "w < 2 * 2 ^ t" by simp
  define m where "m = rne (n * C * 2 ^ t) (w * C)"
  have qpos: "0 < w * C" using assms(3) Cpos by simp
  have up: "m \<le> c * 2 ^ t"
    unfolding m_def
  proof (rule rne_le [OF qpos])
    have "n * (C * 2 ^ t) \<le> c * w * (C * 2 ^ t)"
      using hi by (rule mult_right_mono) simp
    then show "n * C * 2 ^ t \<le> c * 2 ^ t * (w * C)" by (simp add: ac_simps)
  qed
  define a where "a = n - (c - 1) * w"
  have a: "0 < a" and n: "n = (c - 1) * w + a" using lo by (simp_all add: a_def)
  have split: "n * C * 2 ^ t = (c - 1) * 2 ^ t * (w * C) + a * (C * 2 ^ t)"
    by (subst n) (simp add: algebra_simps)
  have down: "(c - 1) * 2 ^ t + 1 \<le> m"
    unfolding m_def
  proof (rule rne_ge [OF qpos])
    show "(c - 1) * 2 ^ t * (w * C) \<le> n * C * 2 ^ t"
      by (subst split) simp
    have "w * C < 2 * 2 ^ t * C" using wt Cpos by simp
    also have "\<dots> = 2 * (1 * (C * 2 ^ t))" by (simp add: ac_simps)
    also have "\<dots> \<le> 2 * (a * (C * 2 ^ t))"
      using a by (intro mult_left_mono mult_right_mono) simp_all
    also have "a * (C * 2 ^ t) = n * C * 2 ^ t - (c - 1) * 2 ^ t * (w * C)"
      by (subst split) simp
    finally show "w * C < 2 * (n * C * 2 ^ t - (c - 1) * 2 ^ t * (w * C))" .
  qed
  have ceil: "(m + 2 ^ t - 1) div 2 ^ t = c"
  proof -
    have ct: "c * 2 ^ t = (c - 1) * 2 ^ t + 2 ^ t"
      using cpos by (cases c) simp_all
    have tp: "(0::nat) < 2 ^ t" by simp
    from down ct have l: "c * 2 ^ t \<le> m + 2 ^ t - 1" by linarith
    from up tp have u: "m + 2 ^ t - 1 < c * 2 ^ t + 2 ^ t" by linarith
    have "c \<le> (m + 2 ^ t - 1) div 2 ^ t"
      using l by (metis div_le_mono div_mult_self_is_m zero_less_numeral zero_less_power)
    moreover have "(m + 2 ^ t - 1) div 2 ^ t < c + 1"
      using u by (simp add: less_mult_imp_div_less)
    ultimately show ?thesis by simp
  qed
  have "c \<le> n"
  proof -
    have "c - 1 \<le> (c - 1) * w" using assms(3) by (cases w) simp_all
    from this lo have "c - 1 < n" by (rule le_less_trans)
    with cpos show ?thesis by simp
  qed
  with assms(2) have "c < 2 ^ 64" by simp
  then have "per_of n w = Some (of_nat c)"
    using assms(3) ceil
    by (simp add: per_of_def quot val fceil_def m_def [symmetric] Let_def)
  then show ?thesis by (simp only: c_def)
qed

lemma size_t_of_nat_eq:
  "a < 2 ^ 64 \<Longrightarrow> b < 2 ^ 64 \<Longrightarrow> (of_nat a :: size_t) = of_nat b \<longleftrightarrow> a = b"
  by (simp add: word_of_nat_eq_iff take_bit_nat_eq_self)

lemma size_t_of_nat_min:
  "a < 2 ^ 64 \<Longrightarrow> b < 2 ^ 64 \<Longrightarrow> min (of_nat a :: size_t) (of_nat b) = of_nat (min a b)"
  by (simp add: min_def of_nat_word_less_eq_iff take_bit_nat_eq_self)

lemma ceil_div_le_iff:
  fixes n per :: nat
  assumes "0 < n" "0 < per"
  shows "n \<le> per * j \<longleftrightarrow> (n + per - 1) div per \<le> j"
proof
  assume "n \<le> per * j"
  then have "n + per - 1 < per * j + per" using assms by simp
  then have "n + per - 1 < (j + 1) * per" by (simp add: ac_simps)
  then have "(n + per - 1) div per < j + 1"
    using assms(2) by (simp add: less_mult_imp_div_less)
  then show "(n + per - 1) div per \<le> j" by simp
next
  assume "(n + per - 1) div per \<le> j"
  then have "(n + per - 1) div per * per \<le> j * per" by (rule mult_right_mono) simp
  with ceil_div_bounds(2) [OF assms] have "n \<le> j * per" by (rule le_trans)
  then show "n \<le> per * j" by (simp add: ac_simps)
qed

lemma create_threads_exact_from:
  fixes n per thr :: nat
  assumes "0 < n" "n < 2 ^ 63" "0 < per" "per \<le> n"
    and "\<forall>r. ctor r = None"
    and "(n + per - 1) div per \<le> thr"
    and "i < (n + per - 1) div per"
  shows "create_threads ctor (of_nat per) (of_nat n) thr i tr acc =
           Ok (tr @ map (\<lambda>r. New_trainThread (fst r) (snd r))
                      (map (\<lambda>i. (of_nat (per * i), of_nat (min (per * i + per - 1) (n - 1))))
                           [i..<(n + per - 1) div per]))
              (acc @ map (\<lambda>i. (of_nat (per * i), of_nat (min (per * i + per - 1) (n - 1))))
                           [i..<(n + per - 1) div per])"
  using assms(7)
proof (induction "(n + per - 1) div per - i" arbitrary: i tr acc)
  case 0
  then show ?case by simp
next
  case (Suc x)
  define k where "k = (n + per - 1) div per"
  from Suc.prems have ik: "i < k" by (simp add: k_def)
  with assms(6) have ithr: "i < thr" by (simp add: k_def)
  define T where "T = min (per * i + per - 1) (n - 1)"
  have b1: "per * i + per - 1 < 2 ^ 64"
  proof -
    have "\<not> k \<le> i" using ik by simp
    then have "\<not> n \<le> per * i" using ceil_div_le_iff [OF assms(1,3), of i] by (simp add: k_def)
    then have "per * i + per - 1 < n + n" using assms(4) by simp
    also have "\<dots> < 2 ^ 64" using assms(2) by simp
    finally show ?thesis .
  qed
  have b2: "n - 1 < 2 ^ 64" using assms(2) by simp
  have from_eq: "(of_nat per :: size_t) * of_nat i = of_nat (per * i)" by simp
  have "(of_nat per :: size_t) * (of_nat i + 1) - 1 = of_nat (per * i + per) - of_nat 1"
    by (simp add: algebra_simps)
  also have "\<dots> = of_nat (per * i + per - 1)"
    using assms(3) by (subst of_nat_diff [symmetric]) simp_all
  finally have hi_eq: "(of_nat per :: size_t) * (of_nat i + 1) - 1 = of_nat (per * i + per - 1)" .
  have "(of_nat n :: size_t) - 1 = of_nat n - of_nat 1" by simp
  also have "\<dots> = of_nat (n - 1)"
    using assms(1) by (subst of_nat_diff [symmetric]) simp_all
  finally have n1_eq: "(of_nat n :: size_t) - 1 = of_nat (n - 1)" .
  have to_eq: "min ((of_nat per :: size_t) * (of_nat i + 1) - 1) (of_nat n - 1) = of_nat T"
    unfolding hi_eq n1_eq T_def by (rule size_t_of_nat_min [OF b1 b2])
  have Tb: "T < 2 ^ 64" using b2 by (simp add: T_def)
  have last_iff: "(of_nat n :: size_t) - 1 = of_nat T \<longleftrightarrow> k \<le> Suc i"
  proof -
    have "(of_nat n :: size_t) - 1 = of_nat T \<longleftrightarrow> n - 1 = T"
      unfolding n1_eq by (rule size_t_of_nat_eq [OF b2 Tb])
    also have "\<dots> \<longleftrightarrow> n \<le> per * Suc i"
      using assms(1,3) by (auto simp add: T_def min_def)
    also have "\<dots> \<longleftrightarrow> k \<le> Suc i"
      unfolding k_def by (rule ceil_div_le_iff [OF assms(1,3)])
    finally show ?thesis .
  qed
  have ctor: "ctor (of_nat (per * i), of_nat T) = None" using assms(5) by simp
  show ?case
  proof (cases "k \<le> Suc i")
    case True
    with ik have k: "k = Suc i" by simp
    have "create_threads ctor (of_nat per) (of_nat n) thr i tr acc =
            Ok (tr @ [New_trainThread (of_nat (per * i)) (of_nat T)])
               (acc @ [(of_nat (per * i), of_nat T)])"
      using ithr True last_iff ctor
      by (subst create_threads.simps) (simp only: from_eq to_eq Let_def if_True option.case)
    then show ?thesis
      unfolding k_def [symmetric] by (simp add: k T_def)
  next
    case False
    then have lt: "Suc i < k" by simp
    have step: "create_threads ctor (of_nat per) (of_nat n) thr i tr acc =
            create_threads ctor (of_nat per) (of_nat n) thr (Suc i)
              (tr @ [New_trainThread (of_nat (per * i)) (of_nat T)])
              (acc @ [(of_nat (per * i), of_nat T)])"
      using ithr False last_iff ctor
      by (subst create_threads.simps) (simp only: from_eq to_eq Let_def if_True if_False option.case)
    have x: "x = (n + per - 1) div per - Suc i" using Suc.hyps(2) by simp
    have lt': "Suc i < (n + per - 1) div per" using lt by (simp add: k_def)
    have upt: "[i..<k] = i # [Suc i..<k]" using ik by (simp add: upt_conv_Cons)
    show ?thesis
      unfolding step Suc.hyps(1) [OF x lt'] k_def [symmetric] upt
      by (simp add: T_def)
  qed
qed

lemma partition_below_2p24:
  fixes n w :: nat
  assumes "0 < n" "n < 2 ^ 24" "0 < w" "w < 2 ^ 24" and "\<forall>r. ctor r = None"
  defines "per \<equiv> (n + w - 1) div w"
  defines "k \<equiv> (n + per - 1) div per"
  shows "per_of n w = Some (of_nat per)"
    and "create_threads ctor (of_nat per) (of_nat n) w 0 tr [] =
           Ok (tr @ map (\<lambda>r. New_trainThread (fst r) (snd r))
                      (map (\<lambda>i. (of_nat (per * i), of_nat (min (per * i + per - 1) (n - 1))))
                           [0..<k]))
              (map (\<lambda>i. (of_nat (per * i), of_nat (min (per * i + per - 1) (n - 1)))) [0..<k])"
    and "0 < k" and "k \<le> w"
    and "\<forall>i. Suc i < k \<longrightarrow> min (per * i + per - 1) (n - 1) = per * i + per - 1"
    and "\<forall>j<n. \<exists>!i. i < k \<and> per * i \<le> j \<and> j \<le> min (per * i + per - 1) (n - 1)"
proof -
  show "per_of n w = Some (of_nat per)"
    unfolding per_def using assms(1-4) by (rule per_of_exact)
  from ceil_div_bounds [OF assms(1,3)]
  have lo: "(per - 1) * w < n" and hi: "n \<le> per * w" and ppos: "0 < per"
    by (simp_all add: per_def)
  have "per - 1 \<le> (per - 1) * w" using assms(3) by (cases w) simp_all
  from this lo have "per - 1 < n" by (rule le_less_trans)
  with ppos have pn: "per \<le> n" by simp
  from hi show kw: "k \<le> w"
    unfolding k_def using ceil_div_le_iff [OF assms(1) ppos, of w] by simp
  from ceil_div_bounds(3) [OF assms(1) ppos] show kpos: "0 < k" by (simp add: k_def)
  have n63: "n < 2 ^ 63" using assms(2) by simp
  from create_threads_exact_from [OF assms(1) n63 ppos pn assms(5), of w 0 tr "[]"] kw kpos
  show "create_threads ctor (of_nat per) (of_nat n) w 0 tr [] =
           Ok (tr @ map (\<lambda>r. New_trainThread (fst r) (snd r))
                      (map (\<lambda>i. (of_nat (per * i), of_nat (min (per * i + per - 1) (n - 1))))
                           [0..<k]))
              (map (\<lambda>i. (of_nat (per * i), of_nat (min (per * i + per - 1) (n - 1)))) [0..<k])"
    by (simp add: k_def)
  show "\<forall>i. Suc i < k \<longrightarrow> min (per * i + per - 1) (n - 1) = per * i + per - 1"
  proof (intro allI impI)
    fix i assume "Suc i < k"
    then have "\<not> k \<le> Suc i" by simp
    then have "\<not> n \<le> per * Suc i"
      unfolding k_def using ceil_div_le_iff [OF assms(1) ppos, of "Suc i"] by simp
    then show "min (per * i + per - 1) (n - 1) = per * i + per - 1" by simp
  qed
  show "\<forall>j<n. \<exists>!i. i < k \<and> per * i \<le> j \<and> j \<le> min (per * i + per - 1) (n - 1)"
  proof (intro allI impI)
    fix j assume j: "j < n"
    have dm: "j = per * (j div per) + j mod per" by simp
    have r: "j mod per < per" using ppos by simp
    have "per * (j div per) \<le> j" by simp
    with j have "\<not> n \<le> per * (j div per)" by linarith
    then have "\<not> k \<le> j div per"
      unfolding k_def using ceil_div_le_iff [OF assms(1) ppos, of "j div per"] by simp
    then have 1: "j div per < k" by simp
    have 2: "per * (j div per) \<le> j" by simp
    have "j \<le> per * (j div per) + per - 1" using dm r by linarith
    moreover from j have "j \<le> n - 1" by linarith
    ultimately have 3: "j \<le> min (per * (j div per) + per - 1) (n - 1)"
      by (rule min.boundedI)
    show "\<exists>!i. i < k \<and> per * i \<le> j \<and> j \<le> min (per * i + per - 1) (n - 1)"
    proof (rule ex1I [of _ "j div per"])
      from 1 2 3 show "j div per < k \<and> per * (j div per) \<le> j \<and>
          j \<le> min (per * (j div per) + per - 1) (n - 1)" by simp
    next
      fix i assume "i < k \<and> per * i \<le> j \<and> j \<le> min (per * i + per - 1) (n - 1)"
      then have a: "per * i \<le> j" and b: "j \<le> per * i + per - 1" by simp_all
      from b ppos have "j < per * i + per" by simp
      then have "j < (i + 1) * per" by (simp add: ac_simps)
      then have "j div per < i + 1" using ppos by (simp add: less_mult_imp_div_less)
      moreover from a have "i * per \<le> j" by (simp add: ac_simps)
      then have "i \<le> j div per"
        using ppos by (metis div_le_mono div_mult_self_is_m)
      ultimately show "i = j div per" by simp
    qed
  qed
qed

subsection \<open>The body of the \<^verbatim>\<open>try\<close> block\<close>

lemma train_body_invalid:
  assumes "size_s s = 0 \<or> words c = [] \<or> trainWords c = 0"
  shows "train_body e s c =
           Throw [New_corpus, New_settings]
             (runtime_error (if size_s s = 0 then ''vectorSize is zero''
                             else if words c = [] then ''vocaburarySize is zero''
                             else ''trainWords is zero''))"
  using assms unfolding train_body_def Let_def by auto

lemma train_body_valid:
  assumes "size_s s \<noteq> 0" "words c \<noteq> []" "trainWords c \<noteq> 0"
  shows "train_body e s c =
     (case init_data e s c (of_nat (size_s s * length (words c))) (mt19937_64 e (random_s s))
             [New_corpus, New_settings] of
        Stuck \<Rightarrow> Stuck
      | Throw tr1 x \<Rightarrow> Throw tr1 x
      | Ok tr1 d \<Rightarrow>
          (case per_of (length (texts c)) (threads s) of
             None \<Rightarrow> Stuck
           | Some per \<Rightarrow>
               (case create_threads (\<lambda>r. trainThread_t e r d) per
                       (of_nat (length (texts c))) (threads s) 0 tr1 [] of
                  Stuck \<Rightarrow> Stuck
                | Throw tr2 x \<Rightarrow> Throw tr2 x
                | Ok tr2 ranges \<Rightarrow> run_threads e d ranges tr2)))"
  using assms unfolding train_body_def Let_def by simp

lemma train_body_Ok:
  assumes "train_body e s c = Ok tr d"
  shows "\<exists>tr1 d0 per tr2 rs.
           size_s s \<noteq> 0 \<and> words c \<noteq> [] \<and> trainWords c \<noteq> 0 \<and>
           init_data e s c (of_nat (size_s s * length (words c))) (mt19937_64 e (random_s s))
             [New_corpus, New_settings] = Ok tr1 d0 \<and>
           per_of (length (texts c)) (threads s) = Some per \<and>
           create_threads (\<lambda>r. trainThread_t e r d0) per (of_nat (length (texts c)))
             (threads s) 0 tr1 [] = Ok tr2 rs \<and>
           run_threads e d0 rs tr2 = Ok tr d"
proof (cases "size_s s = 0 \<or> words c = [] \<or> trainWords c = 0")
  case True
  with assms show ?thesis by (simp add: train_body_invalid)
next
  case False
  then have valid: "size_s s \<noteq> 0" "words c \<noteq> []" "trainWords c \<noteq> 0" by simp_all
  from assms show ?thesis
    unfolding train_body_valid [OF valid]
    using valid by (simp split: step.splits option.splits)
qed

lemma train_body_Throw:
  assumes "train_body e s c = Throw tr x"
  shows "(tr = [New_corpus, New_settings] \<and>
          x = runtime_error (if size_s s = 0 then ''vectorSize is zero''
                             else if words c = [] then ''vocaburarySize is zero''
                             else ''trainWords is zero'') \<and>
          (size_s s = 0 \<or> words c = [] \<or> trainWords c = 0)) \<or>
         (size_s s \<noteq> 0 \<and> words c \<noteq> [] \<and> trainWords c \<noteq> 0 \<and>
          init_data e s c (of_nat (size_s s * length (words c))) (mt19937_64 e (random_s s))
             [New_corpus, New_settings] = Throw tr x) \<or>
         (\<exists>tr1 d0 per.
           size_s s \<noteq> 0 \<and> words c \<noteq> [] \<and> trainWords c \<noteq> 0 \<and>
           init_data e s c (of_nat (size_s s * length (words c))) (mt19937_64 e (random_s s))
             [New_corpus, New_settings] = Ok tr1 d0 \<and>
           per_of (length (texts c)) (threads s) = Some per \<and>
           create_threads (\<lambda>r. trainThread_t e r d0) per (of_nat (length (texts c)))
             (threads s) 0 tr1 [] = Throw tr x)"
proof (cases "size_s s = 0 \<or> words c = [] \<or> trainWords c = 0")
  case True
  with assms train_body_invalid [OF True, of e] show ?thesis by simp
next
  case False
  then have valid: "size_s s \<noteq> 0" "words c \<noteq> []" "trainWords c \<noteq> 0" by simp_all
  from assms show ?thesis
    unfolding train_body_valid [OF valid]
    using valid by (simp add: run_threads_not_Throw split: step.splits option.splits)
qed

lemma train_body_not_Stuck:
  assumes "expTableSize s < 2 ^ 16"
    and "per_of (length (texts c)) (threads s) \<noteq> None"
    and "verbose s \<longrightarrow> (\<exists>k. int (iterations s) \<le> iter_seen e k)"
  shows "train_body e s c \<noteq> Stuck"
proof (cases "size_s s = 0 \<or> words c = [] \<or> trainWords c = 0")
  case True
  then show ?thesis by (simp add: train_body_invalid)
next
  case valid: False
  let ?init = "init_data e s c (of_nat (size_s s * length (words c)))
                 (mt19937_64 e (random_s s)) [New_corpus, New_settings]"
  from assms(1) have init: "?init \<noteq> Stuck"
    by (simp add: init_data_Stuck make_expTable_closed)
  from assms(2) obtain per where per: "per_of (length (texts c)) (threads s) = Some per"
    by auto
  show ?thesis
  proof (cases ?init)
    case Stuck
    with init show ?thesis by simp
  next
    case (Throw tr1 x)
    with valid show ?thesis by (simp add: train_body_def Let_def)
  next
    case (Ok tr1 d0)
    then have set: "settings d0 = s" by (rule init_data_Ok(6))
    let ?ct = "create_threads (\<lambda>r. trainThread_t e r d0) per (of_nat (length (texts c)))
                 (threads s) 0 tr1 []"
    show ?thesis
    proof (cases ?ct)
      case Stuck
      then show ?thesis by (simp add: create_threads_not_Stuck)
    next
      case (Throw tr2 x)
      with valid Ok per show ?thesis by (simp add: train_body_def Let_def)
    next
      case ct: (Ok tr2 rs)
      have "run_threads e d0 rs tr2 \<noteq> Stuck"
        using assms(3) set by (intro run_threads_not_Stuck) simp
      with valid Ok per ct show ?thesis by (simp add: train_body_def Let_def)
    qed
  qed
qed

lemma train_body_Ok_trace:
  assumes "train_body e s c = Ok tr d"
  shows "\<exists>m rs. tr = [New_corpus, New_settings, New_bpWeights m, New_pjLayerValues m,
                      New_expTable (expTableSize s)]
                   @ (if withHS s then [New_huffmanTree] else [])
                   @ [New_processedWords, New_alpha]
                   @ map (\<lambda>r. New_trainThread (fst r) (snd r)) rs
                   @ map Launch [0..<length rs] @ map Join [0..<length rs]"
proof -
  from train_body_Ok [OF assms] obtain tr1 d0 per tr2 rs where
    i: "init_data e s c (of_nat (size_s s * length (words c))) (mt19937_64 e (random_s s))
          [New_corpus, New_settings] = Ok tr1 d0"
    and ct: "create_threads (\<lambda>r. trainThread_t e r d0) per (of_nat (length (texts c)))
               (threads s) 0 tr1 [] = Ok tr2 rs"
    and r: "run_threads e d0 rs tr2 = Ok tr d"
    by blast
  from create_threads_result [of "\<lambda>r. trainThread_t e r d0" per "of_nat (length (texts c))"
         "threads s" 0 tr1 "[]"] ct
  have tr2: "tr2 = tr1 @ map (\<lambda>r. New_trainThread (fst r) (snd r)) rs"
    by auto
  show ?thesis
    unfolding run_threads_Ok(1) [OF r] tr2 init_data_Ok(1) [OF i] by auto
qed

lemma train_body_Throw_trace:
  assumes "train_body e s c = Throw tr x"
  shows "tr = [New_corpus, New_settings] \<or>
         (withHS s \<and> (\<exists>m. tr = [New_corpus, New_settings, New_bpWeights m, New_pjLayerValues m,
                                 New_expTable (expTableSize s)])) \<or>
         (\<exists>m rs. tr = [New_corpus, New_settings, New_bpWeights m, New_pjLayerValues m,
                      New_expTable (expTableSize s)]
                   @ (if withHS s then [New_huffmanTree] else [])
                   @ [New_processedWords, New_alpha]
                   @ map (\<lambda>r. New_trainThread (fst r) (snd r)) rs)"
proof -
  from train_body_Throw [OF assms]
  consider "tr = [New_corpus, New_settings]"
    | "init_data e s c (of_nat (size_s s * length (words c))) (mt19937_64 e (random_s s))
             [New_corpus, New_settings] = Throw tr x"
    | tr1 d0 per where
       "init_data e s c (of_nat (size_s s * length (words c))) (mt19937_64 e (random_s s))
             [New_corpus, New_settings] = Ok tr1 d0"
       "create_threads (\<lambda>r. trainThread_t e r d0) per (of_nat (length (texts c)))
             (threads s) 0 tr1 [] = Throw tr x"
    by blast
  then show ?thesis
  proof cases
    case 1
    then show ?thesis by simp
  next
    case 2
    from init_data_Throw(1,2) [OF 2] show ?thesis by auto
  next
    case 3
    from create_threads_result [of "\<lambda>r. trainThread_t e r d0" per "of_nat (length (texts c))"
         "threads s" 0 tr1 "[]"] 3(2)
    obtain rs where "tr = tr1 @ map (\<lambda>r. New_trainThread (fst r) (snd r)) rs"
      by auto
    then show ?thesis
      unfolding init_data_Ok(1) [OF 3(1)] by auto
  qed
qed

subsection \<open>Publishing the matrices\<close>

lemma caught_case:
  "caught x = (case x of Std_exception msg \<Rightarrow> msg | Other_exception \<Rightarrow> ''unknown error'')"
  by (cases x) simp_all

lemma publish_cases:
  "(\<exists>x t. assign_fails e 110 (m_pjLayerValues w) = Some (x, t) \<and>
          publish e w d = (w\<lparr>m_pjLayerValues := t\<rparr>, Some x)) \<or>
   (\<exists>x t. assign_fails e 110 (m_pjLayerValues w) = None \<and>
          assign_fails e 111 (m_bpWeights w) = Some (x, t) \<and>
          publish e w d = (w\<lparr>m_pjLayerValues := pjLayerValues d, m_bpWeights := t\<rparr>, Some x)) \<or>
   (assign_fails e 110 (m_pjLayerValues w) = None \<and>
    assign_fails e 111 (m_bpWeights w) = None \<and>
    publish e w d = (w\<lparr>m_pjLayerValues := pjLayerValues d, m_bpWeights := bpWeights d\<rparr>, None))"
  by (auto simp add: publish_def assign_vector_def split: option.splits)

lemma publish_None:
  assumes "publish e w d = (w2, None)"
  shows "w2 = w\<lparr>m_pjLayerValues := pjLayerValues d, m_bpWeights := bpWeights d\<rparr>"
  using assms publish_cases [of e w d] by auto

lemma train_Some:
  assumes "train e w s c = Some (tr, b, w')"
  shows "(\<exists>x. train_body e s c = Throw tr x \<and> \<not> b \<and>
              w' = w\<lparr>m_vectorSize := size_s s, m_vocaburarySize := length (words c),
                     m_errMsg := caught x\<rparr>) \<or>
         (\<exists>d. train_body e s c = Ok tr d \<and> b \<and>
              publish e (w\<lparr>m_vectorSize := size_s s, m_vocaburarySize := length (words c)\<rparr>) d
                = (w', None)) \<or>
         (\<exists>d x w2. train_body e s c = Ok tr d \<and> \<not> b \<and>
              publish e (w\<lparr>m_vectorSize := size_s s, m_vocaburarySize := length (words c)\<rparr>) d
                = (w2, Some x) \<and>
              w' = w2\<lparr>m_errMsg := caught x\<rparr>)"
  using assms
  by (auto simp add: train_def Let_def split: step.splits prod.splits option.splits)

subsection \<open>The example runs\<close>

lemma per_of_1_2: "per_of (Suc 0) 2 = Some 1"
  by (simp add: per_of_def float_of_size_def fdiv_def fceil_def b32_def rne_def bitlen_nat_eval)

lemma example_run:
  "\<exists>w'. train example_env example_model example_settings example_corpus =
     Some ([New_corpus, New_settings, New_bpWeights 6, New_pjLayerValues 6, New_expTable 1000,
            New_huffmanTree, New_processedWords, New_alpha, New_trainThread 0 0,
            Launch 0, Join 0], True, w')"
  by (simp add: train_def train_body_def init_data_def make_expTable_closed per_of_1_1
      create_threads.simps run_threads_def publish_def assign_vector_def example_env_def
      example_settings_def example_corpus_def Let_def)

lemma example_run_ns:
  "\<exists>w'. train example_env example_model example_settings_ns example_corpus =
     Some ([New_corpus, New_settings, New_bpWeights 6, New_pjLayerValues 6, New_expTable 1000,
            New_processedWords, New_alpha, New_trainThread 0 0, Launch 0, Join 0], True, w')"
  by (simp add: train_def train_body_def init_data_def make_expTable_closed per_of_1_2
      create_threads.simps run_threads_def publish_def assign_vector_def example_env_def
      example_settings_def example_settings_ns_def example_corpus_def Let_def)

lemma example_run_throwing:
  "train example_env_throwing example_model example_settings_verbose example_corpus =
     Some ([New_corpus, New_settings, New_bpWeights 6, New_pjLayerValues 6, New_expTable 1000],
           False,
           example_model\<lparr>m_vectorSize := 2, m_vocaburarySize := 3,
                          m_errMsg := ''unknown error''\<rparr>)"
  by (simp add: train_def train_body_def init_data_def make_expTable_closed
      example_env_throwing_def example_env_def example_settings_verbose_def
      example_settings_def example_corpus_def example_model_def Let_def)

text \<open>The six draws of the example environment from the seed 1234.\<close>

lemma replicate_six: "replicate 6 x = [x, x, x, x, x, x]"
  by (simp add: numeral_eq_Suc)

lemma example_draws:
  "fst (generate (rndMatrixInitializer example_env) (replicate 6 (Finite 0)) 1234) =
     [Finite 0, Finite (5368709 / 2147483648), Finite (- (5368709 / 1073741824)),
      Finite (- (5368709 / 2147483648)), Finite 0, Finite (5368709 / 2147483648)]"
  unfolding replicate_six
  by (simp add: rndMatrixInitializer_def example_env_def round32_literal_normal f32_neg_def
      Let_def)

lemma example_init:
  "\<exists>tr1 d. init_data example_env example_settings example_corpus 6 1234
              [New_corpus, New_settings] = Ok tr1 d \<and>
     pjLayerValues d =
       [Finite 0, Finite (5368709 / 2147483648), Finite (- (5368709 / 1073741824)),
        Finite (- (5368709 / 2147483648)), Finite 0, Finite (5368709 / 2147483648)] \<and>
     bpWeights d = [Finite 0, Finite 0, Finite 0, Finite 0, Finite 0, Finite 0]"
proof -
  have m: "unat (6 :: size_t) = 6" by simp
  have tab: "make_expTable 1000 6 = Some (map (expTable_entry 1000 6) [0..<1000])"
    by (rule make_expTable_closed) simp
  show ?thesis
    unfolding init_data_def Let_def m example_draws
    by (simp add: tab replicate_six example_settings_def example_env_def)
qed


section \<open>The claims\<close>

text \<open>
  C1. If the embedding dimensionality, the vocabulary size or the total trainable word
  count is 0, \<^verbatim>\<open>train\<close> returns false and stores a message that names the violated
  invariant; no worker is created and none is launched: the only events are the two
  copies made on lines 17 and 18.
\<close>

theorem train_rejects_zero_sizes:
  assumes "size_s s = 0 \<or> words c = [] \<or> trainWords c = 0"
  shows "\<exists>tr w'. train e w s c = Some (tr, False, w') \<and>
           m_errMsg w' = (if size_s s = 0 then ''vectorSize is zero''
                          else if words c = [] then ''vocaburarySize is zero''
                          else ''trainWords is zero'') \<and>
           tr = [New_corpus, New_settings] \<and>
           (\<forall>a b. New_trainThread a b \<notin> set tr) \<and> (\<forall>i. Launch i \<notin> set tr)"
  using assms by (simp add: train_def train_body_invalid runtime_error_def Let_def)

theorem train_rejects_zero_sizes_witness:
  "(size_s example_settings = 0 \<or> words (example_corpus\<lparr>words := []\<rparr>) = [] \<or>
    trainWords (example_corpus\<lparr>words := []\<rparr>) = 0) \<and>
   (\<exists>tr w'. train example_env example_model example_settings (example_corpus\<lparr>words := []\<rparr>)
               = Some (tr, False, w') \<and>
      m_errMsg w' = ''vocaburarySize is zero'' \<and>
      tr = [New_corpus, New_settings] \<and>
      (\<forall>a b. New_trainThread a b \<notin> set tr) \<and> (\<forall>i. Launch i \<notin> set tr))"
  using train_rejects_zero_sizes
          [of example_settings "example_corpus\<lparr>words := []\<rparr>" example_env example_model]
  by (simp add: example_settings_def)

text \<open>
  C2. \<^verbatim>\<open>train\<close> never propagates an exception: whenever the call returns (the sigmoid
  table fits the 16-bit counter, the partition size is defined, and the progress loop,
  if run, sees the last iteration), it returns true, or an exception was thrown, by the
  body or by one of the two assignments that publish the matrices, the handler stored
  the text of the exception (\<open>unknown error\<close> for a non-standard one) and it returns
  false.
\<close>

theorem train_never_propagates:
  assumes "expTableSize s < 2 ^ 16"
    and "per_of (length (texts c)) (threads s) \<noteq> None"
    and "verbose s \<longrightarrow> (\<exists>k. int (iterations s) \<le> iter_seen e k)"
  shows "(\<exists>tr w'. train e w s c = Some (tr, True, w')) \<or>
         (\<exists>tr x w'.
            (train_body e s c = Throw tr x \<or>
             (\<exists>d. train_body e s c = Ok tr d \<and>
                  snd (publish e (w\<lparr>m_vectorSize := size_s s,
                                      m_vocaburarySize := length (words c)\<rparr>) d) = Some x)) \<and>
            train e w s c = Some (tr, False, w') \<and>
            m_errMsg w' = (case x of Std_exception msg \<Rightarrow> msg
                                   | Other_exception \<Rightarrow> ''unknown error''))"
proof (cases "train_body e s c")
  case (Ok tr d)
  let ?w1 = "w\<lparr>m_vectorSize := size_s s, m_vocaburarySize := length (words c)\<rparr>"
  obtain w2 r where p: "publish e ?w1 d = (w2, r)" by (cases "publish e ?w1 d")
  show ?thesis
  proof (cases r)
    case None
    with Ok p have "train e w s c = Some (tr, True, w2)" by (simp add: train_def Let_def)
    then show ?thesis by blast
  next
    case (Some x)
    with Ok p have "train e w s c = Some (tr, False, w2\<lparr>m_errMsg := caught x\<rparr>)"
      by (simp add: train_def Let_def)
    moreover have "m_errMsg (w2\<lparr>m_errMsg := caught x\<rparr>) =
        (case x of Std_exception msg \<Rightarrow> msg | Other_exception \<Rightarrow> ''unknown error'')"
      by (simp add: caught_case)
    moreover have "snd (publish e ?w1 d) = Some x" using p Some by simp
    ultimately show ?thesis using Ok by blast
  qed
next
  case (Throw tr x)
  then show ?thesis by (cases x) (simp_all add: train_def Let_def)
next
  case Stuck
  with train_body_not_Stuck [OF assms] show ?thesis by simp
qed

theorem train_never_propagates_witness:
  "expTableSize example_settings_verbose < 2 ^ 16 \<and>
   per_of (length (texts example_corpus)) (threads example_settings_verbose) \<noteq> None \<and>
   verbose example_settings_verbose \<and>
   int (iterations example_settings_verbose) \<le> iter_seen example_env_throwing 1 \<and>
   ((\<exists>tr w'. train example_env_throwing example_model example_settings_verbose example_corpus
                 = Some (tr, True, w')) \<or>
    (\<exists>tr x w'.
        (train_body example_env_throwing example_settings_verbose example_corpus = Throw tr x \<or>
         (\<exists>d. train_body example_env_throwing example_settings_verbose example_corpus = Ok tr d \<and>
              snd (publish example_env_throwing
                     (example_model\<lparr>m_vectorSize := size_s example_settings_verbose,
                                    m_vocaburarySize := length (words example_corpus)\<rparr>) d)
                = Some x)) \<and>
        train example_env_throwing example_model example_settings_verbose example_corpus
                 = Some (tr, False, w') \<and>
        m_errMsg w' = (case x of Std_exception msg \<Rightarrow> msg
                               | Other_exception \<Rightarrow> ''unknown error''))) \<and>
   train example_env_throwing example_model example_settings_verbose example_corpus =
     Some ([New_corpus, New_settings, New_bpWeights 6, New_pjLayerValues 6, New_expTable 1000],
           False,
           example_model\<lparr>m_vectorSize := 2, m_vocaburarySize := 3,
                          m_errMsg := ''unknown error''\<rparr>)"
proof -
  have 1: "expTableSize example_settings_verbose < 2 ^ 16"
    by (simp add: example_settings_verbose_def example_settings_def)
  have 2: "per_of (length (texts example_corpus)) (threads example_settings_verbose) \<noteq> None"
    by (simp add: example_settings_verbose_def example_settings_def example_corpus_def
        per_of_1_1)
  have v: "verbose example_settings_verbose"
    by (simp add: example_settings_verbose_def)
  have seen: "int (iterations example_settings_verbose) \<le> iter_seen example_env_throwing 1"
    by (simp add: example_settings_verbose_def example_settings_def example_env_throwing_def
        example_env_def)
  then have 3: "verbose example_settings_verbose \<longrightarrow>
      (\<exists>k. int (iterations example_settings_verbose) \<le> iter_seen example_env_throwing k)"
    by blast
  from train_never_propagates [OF 1 2 3, of example_model] 1 2 v seen example_run_throwing
  show ?thesis
    by blast
qed

text \<open>
  C3 fails on the code. With 16777217 documents and one worker, \<^verbatim>\<open>(float)n\<close> is 16777216,
  so \<^verbatim>\<open>per\<close> is 16777216; the single worker gets the documents 0 to 16777215, the loop
  ends because \<open>i\<close> has reached \<^verbatim>\<open>threads\<close>, and the document 16777216 is in no range.
  (For fewer than \<open>2\<^sup>2\<^sup>4\<close> documents the partition is as the claim says, by
  \<open>partition_below_2p24\<close>.)
\<close>

theorem partition_drops_last_document:
  "length (texts example_corpus_big) = 16777217 \<and>
   threads example_settings = 1 \<and>
   per_of (length (texts example_corpus_big)) (threads example_settings) = Some 16777216 \<and>
   map_option fst (train example_env example_model example_settings example_corpus_big) =
     Some [New_corpus, New_settings, New_bpWeights 6, New_pjLayerValues 6, New_expTable 1000,
           New_huffmanTree, New_processedWords, New_alpha, New_trainThread 0 16777215,
           Launch 0, Join 0]"
  by (simp add: train_def train_body_def init_data_def make_expTable_closed per_of_big
      create_threads.simps run_threads_def publish_def assign_vector_def example_env_def
      example_settings_def example_corpus_def example_corpus_big_def Let_def)

text \<open>
  C4. Provided the product fits \<^verbatim>\<open>std::size_t\<close> and the library's distribution on \<open>a\<close> and
  \<open>b\<close> draws numbers between \<open>a\<close> and \<open>b\<close>: the shared data is set up whenever the sigmoid
  table fits its counter and the constructor of the Huffman tree, if called, does not
  throw; then both matrices have vocabulary size times dimensionality entries, every
  entry of the output matrix is 0, and entry \<open>k\<close> of the input matrix is draw number \<open>k\<close> of
  the distribution of line 44 from the generator seeded on line 23, a number between
  \<open>-0.005\<close> and \<open>0.005\<close>; and when \<^verbatim>\<open>train\<close> returns true, the published matrices have that
  many entries.
\<close>

theorem matrices_shape_and_init:
  assumes "\<forall>a b g. a < b \<longrightarrow>
             (\<exists>x. fst (uniform_real_distribution e (Finite a) (Finite b) g) = Finite x \<and>
                  a \<le> x \<and> x \<le> b)"
    and "size_s s * length (words c) < 2 ^ 64"
  shows "(expTableSize s < 2 ^ 16 \<and>
          (withHS s \<longrightarrow> (\<exists>h. huffmanTree_t e (frequency c) = Inr h)) \<longrightarrow>
            (\<exists>tr1 d. init_data e s c (of_nat (size_s s * length (words c)))
                       (mt19937_64 e (random_s s)) [New_corpus, New_settings] = Ok tr1 d)) \<and>
         (\<forall>tr1 d. init_data e s c (of_nat (size_s s * length (words c)))
                    (mt19937_64 e (random_s s)) [New_corpus, New_settings] = Ok tr1 d \<longrightarrow>
            length (pjLayerValues d) = length (words c) * size_s s \<and>
            length (bpWeights d) = length (words c) * size_s s \<and>
            (\<forall>x \<in> set (bpWeights d). x = Finite 0) \<and>
            (\<forall>v \<in> set (pjLayerValues d). \<exists>x. v = Finite x \<and> - (5 / 1000) \<le> x \<and> x \<le> 5 / 1000) \<and>
            (\<forall>k < length (words c) * size_s s.
               pjLayerValues d ! k =
                 fst (rndMatrixInitializer e
                        (((\<lambda>g. snd (rndMatrixInitializer e g)) ^^ k)
                           (mt19937_64 e (random_s s)))))) \<and>
         (\<forall>tr w'. train e w s c = Some (tr, True, w') \<longrightarrow>
            length (m_pjLayerValues w') = length (words c) * size_s s \<and>
            length (m_bpWeights w') = length (words c) * size_s s)"
proof -
  let ?m = "of_nat (size_s s * length (words c)) :: size_t"
  let ?g = "mt19937_64 e (random_s s)"
  have "unat ?m = (size_s s * length (words c)) mod 2 ^ 64"
    by (subst unat_of_nat) simp
  then have m: "unat ?m = length (words c) * size_s s"
    using assms(2) by (simp add: mult.commute)
  have draw: "\<exists>x. fst (rndMatrixInitializer e g) = Finite x \<and> - (5 / 1000) \<le> x \<and> x \<le> 5 / 1000"
    for g
  proof -
    have "- (10737418 / 2 ^ 31) < (10737418 / 2 ^ 31 :: real)" by simp
    with assms(1) obtain x where
      "fst (uniform_real_distribution e (Finite (- (10737418 / 2 ^ 31)))
              (Finite (10737418 / 2 ^ 31)) g) = Finite x"
      "- (10737418 / 2 ^ 31) \<le> x" "x \<le> 10737418 / 2 ^ 31"
      by blast
    then show ?thesis
      by (auto simp add: rndMatrixInitializer_def round32_literal_normal f32_neg_def)
  qed
  have init: "length (pjLayerValues d) = length (words c) * size_s s \<and>
            length (bpWeights d) = length (words c) * size_s s \<and>
            (\<forall>x \<in> set (bpWeights d). x = Finite 0) \<and>
            (\<forall>v \<in> set (pjLayerValues d). \<exists>x. v = Finite x \<and> - (5 / 1000) \<le> x \<and> x \<le> 5 / 1000) \<and>
            (\<forall>k < length (words c) * size_s s.
               pjLayerValues d ! k =
                 fst (rndMatrixInitializer e
                        (((\<lambda>g. snd (rndMatrixInitializer e g)) ^^ k) ?g)))"
    if ok: "init_data e s c ?m ?g [New_corpus, New_settings] = Ok tr1 d"
    for tr1 d
  proof -
    have bp: "bpWeights d = replicate (unat ?m) (Finite 0)"
      using ok by (rule init_data_Ok(2))
    have pj: "pjLayerValues d =
        fst (generate (rndMatrixInitializer e) (replicate (unat ?m) (Finite 0)) ?g)"
      using ok by (rule init_data_Ok(3))
    have "length (pjLayerValues d) = length (words c) * size_s s"
      by (simp only: pj length_generate length_replicate m)
    moreover have "length (bpWeights d) = length (words c) * size_s s"
      by (simp only: bp length_replicate m)
    moreover have "\<forall>x \<in> set (bpWeights d). x = Finite 0"
      by (simp add: bp)
    moreover have "\<forall>v \<in> set (pjLayerValues d).
        \<exists>x. v = Finite x \<and> - (5 / 1000) \<le> x \<and> x \<le> 5 / 1000"
    proof
      fix v assume "v \<in> set (pjLayerValues d)"
      then obtain g' where "v = fst (rndMatrixInitializer e g')"
        unfolding pj by (blast dest: set_generate)
      with draw [of g'] show "\<exists>x. v = Finite x \<and> - (5 / 1000) \<le> x \<and> x \<le> 5 / 1000" by simp
    qed
    moreover have "\<forall>k < length (words c) * size_s s.
               pjLayerValues d ! k =
                 fst (rndMatrixInitializer e
                        (((\<lambda>g. snd (rndMatrixInitializer e g)) ^^ k) ?g))"
    proof (intro allI impI)
      fix k assume "k < length (words c) * size_s s"
      then have "k < length (replicate (unat ?m) (Finite 0 :: f32))" by (simp only: length_replicate m)
      then show "pjLayerValues d ! k =
                 fst (rndMatrixInitializer e
                        (((\<lambda>g. snd (rndMatrixInitializer e g)) ^^ k) ?g))"
        unfolding pj by (rule nth_generate)
    qed
    ultimately show ?thesis by blast
  qed
  have publ: "length (m_pjLayerValues w') = length (words c) * size_s s \<and>
            length (m_bpWeights w') = length (words c) * size_s s"
    if ok: "train e w s c = Some (tr, True, w')" for tr w'
  proof -
    from train_Some [OF ok] obtain d where body: "train_body e s c = Ok tr d"
      and p: "publish e (w\<lparr>m_vectorSize := size_s s, m_vocaburarySize := length (words c)\<rparr>) d
                = (w', None)"
      by auto
    from publish_None [OF p]
    have w': "m_pjLayerValues w' = pjLayerValues d" "m_bpWeights w' = bpWeights d"
      by simp_all
    from train_body_Ok [OF body] obtain tr1 d0 tr2 rs where
      i: "init_data e s c ?m ?g [New_corpus, New_settings] = Ok tr1 d0"
      and r: "run_threads e d0 rs tr2 = Ok tr d"
      by blast
    from r have "d = fold apply_store (worker e d0 rs) d0"
      by (rule run_threads_Ok(2))
    then have "length (pjLayerValues d) = length (pjLayerValues d0)"
      and "length (bpWeights d) = length (bpWeights d0)"
      by (simp_all add: fold_apply_store_frame)
    with init [OF i] show ?thesis by (simp add: w')
  qed
  have returns: "\<exists>tr1 d. init_data e s c ?m ?g [New_corpus, New_settings] = Ok tr1 d"
    if "expTableSize s < 2 ^ 16 \<and>
        (withHS s \<longrightarrow> (\<exists>h. huffmanTree_t e (frequency c) = Inr h))"
  proof -
    from that have "expTableSize s < 2 ^ 16"
      and "withHS s \<longrightarrow> (\<exists>h. huffmanTree_t e (frequency c) = Inr h)"
      by simp_all
    then show ?thesis by (rule init_data_returns)
  qed
  from returns init publ show ?thesis by blast
qed

theorem matrices_shape_and_init_witness:
  "(\<forall>a b g. \<exists>x. fst (uniform_real_distribution example_env (Finite a) (Finite b) g) = Finite x \<and>
                  min a b \<le> x \<and> x \<le> max a b) \<and>
   size_s example_settings * length (words example_corpus) < 2 ^ 64 \<and>
   expTableSize example_settings < 2 ^ 16 \<and>
   huffmanTree_t example_env (frequency example_corpus) = Inr () \<and>
   (\<exists>tr1 d. init_data example_env example_settings example_corpus
               (of_nat (size_s example_settings * length (words example_corpus)))
               (mt19937_64 example_env (random_s example_settings)) [New_corpus, New_settings]
               = Ok tr1 d \<and>
      pjLayerValues d =
        [Finite 0, Finite (5368709 / 2147483648), Finite (- (5368709 / 1073741824)),
         Finite (- (5368709 / 2147483648)), Finite 0, Finite (5368709 / 2147483648)] \<and>
      bpWeights d = [Finite 0, Finite 0, Finite 0, Finite 0, Finite 0, Finite 0] \<and>
      length (pjLayerValues d) = 6 \<and> length (bpWeights d) = 6 \<and>
      (\<forall>x \<in> set (bpWeights d). x = Finite 0) \<and>
      (\<forall>v \<in> set (pjLayerValues d). \<exists>x. v = Finite x \<and> - (5 / 1000) \<le> x \<and> x \<le> 5 / 1000) \<and>
      pjLayerValues d ! 2 =
        fst (rndMatrixInitializer example_env
               (((\<lambda>g. snd (rndMatrixInitializer example_env g)) ^^ 2) 1234))) \<and>
   (\<exists>tr w'. train example_env example_model example_settings example_corpus
               = Some (tr, True, w') \<and>
      length (m_pjLayerValues w') = 6 \<and> length (m_bpWeights w') = 6)"
proof -
  have between: "\<forall>a b g. \<exists>x.
      fst (uniform_real_distribution example_env (Finite a) (Finite b) g) = Finite x \<and>
      min a b \<le> x \<and> x \<le> max a b"
  proof (intro allI)
    fix a b :: real and g :: nat
    define t where "t = real (g mod 4) / 4"
    have "g mod 4 \<le> 3" by simp
    then have k: "0 \<le> t" "0 \<le> 1 - t" by (simp_all add: t_def)
    define x where "x = a + (b - a) * t"
    have x: "x = (1 - t) * a + t * b"
      by (simp add: x_def algebra_simps)
    have "(1 - t) * min a b \<le> (1 - t) * a" "t * min a b \<le> t * b"
      "(1 - t) * a \<le> (1 - t) * max a b" "t * b \<le> t * max a b"
      using k by (intro mult_left_mono; simp)+
    moreover have "min a b = (1 - t) * min a b + t * min a b"
      "max a b = (1 - t) * max a b + t * max a b"
      by (simp_all add: algebra_simps)
    ultimately have "min a b \<le> x" "x \<le> max a b"
      unfolding x by linarith+
    moreover have "fst (uniform_real_distribution example_env (Finite a) (Finite b) g) = Finite x"
      by (simp add: example_env_def x_def t_def)
    ultimately show "\<exists>x.
      fst (uniform_real_distribution example_env (Finite a) (Finite b) g) = Finite x \<and>
      min a b \<le> x \<and> x \<le> max a b"
      by blast
  qed
  have contract: "\<forall>a b g. a < b \<longrightarrow>
      (\<exists>x. fst (uniform_real_distribution example_env (Finite a) (Finite b) g) = Finite x \<and>
           a \<le> x \<and> x \<le> b)"
  proof (intro allI impI)
    fix a b :: real and g :: nat
    assume "a < b"
    then have "min a b = a" "max a b = b" by simp_all
    with between [rule_format, of a b g]
    show "\<exists>x. fst (uniform_real_distribution example_env (Finite a) (Finite b) g) = Finite x \<and>
           a \<le> x \<and> x \<le> b"
      by simp
  qed
  have fits: "size_s example_settings * length (words example_corpus) < 2 ^ 64"
    and table: "expTableSize example_settings < 2 ^ 16"
    and tree: "huffmanTree_t example_env (frequency example_corpus) = Inr ()"
    by (simp_all add: example_settings_def example_corpus_def example_env_def)
  have args: "(of_nat (size_s example_settings * length (words example_corpus)) :: size_t) = 6"
    "mt19937_64 example_env (random_s example_settings) = 1234"
    "length (words example_corpus) * size_s example_settings = 6"
    by (simp_all add: example_settings_def example_corpus_def example_env_def)
  from example_init obtain tr1 d where
    init: "init_data example_env example_settings example_corpus 6 1234
             [New_corpus, New_settings] = Ok tr1 d"
    and pj: "pjLayerValues d =
        [Finite 0, Finite (5368709 / 2147483648), Finite (- (5368709 / 1073741824)),
         Finite (- (5368709 / 2147483648)), Finite 0, Finite (5368709 / 2147483648)]"
    and bp: "bpWeights d = [Finite 0, Finite 0, Finite 0, Finite 0, Finite 0, Finite 0]"
    by blast
  from example_run obtain tr w' where
    run: "train example_env example_model example_settings example_corpus = Some (tr, True, w')"
    by blast
  from matrices_shape_and_init [OF contract fits, of example_model, unfolded args] init run
  have "length (pjLayerValues d) = 6 \<and> length (bpWeights d) = 6 \<and>
      (\<forall>x \<in> set (bpWeights d). x = Finite 0) \<and>
      (\<forall>v \<in> set (pjLayerValues d). \<exists>x. v = Finite x \<and> - (5 / 1000) \<le> x \<and> x \<le> 5 / 1000) \<and>
      pjLayerValues d ! 2 =
        fst (rndMatrixInitializer example_env
               (((\<lambda>g. snd (rndMatrixInitializer example_env g)) ^^ 2) 1234))"
    and "length (m_pjLayerValues w') = 6 \<and> length (m_bpWeights w') = 6"
    by simp_all
  with between fits table tree init [folded args(1,2)] pj bp run show ?thesis by blast
qed

text \<open>
  C6, as amended. For every \<^verbatim>\<open>expTableSize\<close> below 65536 the sigmoid table is built, it has
  exactly \<^verbatim>\<open>expTableSize\<close> entries, and entry \<open>r\<close> is the binary32 value that lines 51 and
  53 compute for \<open>r\<close>, every operation rounded. With \<^verbatim>\<open>expValueMax\<close> at most 88, where the
  exponential cannot overflow, every entry is a number between 0 and 1, and the entry
  at the middle of an even table is exactly \<open>1/2\<close>. The shared data holds this table, and
  it is the same after the workers have run.
\<close>

theorem expTable_binary32_contents:
  assumes "expTableSize s < 2 ^ 16"
  shows "\<exists>t. make_expTable (expTableSize s) (expValueMax s) = Some t \<and>
             length t = expTableSize s \<and>
             (\<forall>r<expTableSize s. t ! r = expTable_entry (expTableSize s) (expValueMax s) r) \<and>
             (expValueMax s \<le> 88 \<longrightarrow>
                (\<forall>r<expTableSize s. \<exists>v. t ! r = Finite v \<and> 0 \<le> v \<and> v \<le> 1) \<and>
                (\<forall>r. 0 < r \<and> 2 * r = expTableSize s \<longrightarrow> t ! r = Finite (1 / 2))) \<and>
             (\<forall>tr1 d. init_data e s c m g tr = Ok tr1 d \<longrightarrow>
                expTable d = t \<and>
                (\<forall>ranges tr2 tr3 d'. run_threads e d ranges tr2 = Ok tr3 d' \<longrightarrow>
                   expTable d' = t))"
proof -
  let ?N = "expTableSize s" and ?M = "expValueMax s"
  let ?t = "map (expTable_entry ?N ?M) [0..<?N]"
  have made: "make_expTable ?N ?M = Some ?t"
    using assms by (rule make_expTable_closed)
  have len: "length ?t = ?N" by simp
  have entry: "\<forall>r<?N. ?t ! r = expTable_entry ?N ?M r" by simp
  have range: "\<forall>r<?N. \<exists>v. ?t ! r = Finite v \<and> 0 \<le> v \<and> v \<le> 1" if M: "?M \<le> 88"
  proof (intro allI impI)
    fix r assume r: "r < ?N"
    from expTable_entry_range [OF r assms M] r
    show "\<exists>v. ?t ! r = Finite v \<and> 0 \<le> v \<and> v \<le> 1" by simp
  qed
  have mid: "\<forall>r. 0 < r \<and> 2 * r = ?N \<longrightarrow> ?t ! r = Finite (1 / 2)" if M: "?M \<le> 88"
  proof (intro allI impI)
    fix r assume r: "0 < r \<and> 2 * r = ?N"
    then have "r < ?N" "0 < ?N" by simp_all
    moreover from M have "?M < 2 ^ 24" by simp
    ultimately show "?t ! r = Finite (1 / 2)"
      using expTable_entry_midpoint [of r ?N ?M] r assms by simp
  qed
  have frame: "expTable d = ?t \<and>
      (\<forall>ranges tr2 tr3 d'. run_threads e d ranges tr2 = Ok tr3 d' \<longrightarrow> expTable d' = ?t)"
    if ok: "init_data e s c m g tr = Ok tr1 d" for tr1 d
  proof -
    from init_data_Ok(4) [OF ok] made have tab: "expTable d = ?t" by simp
    have "expTable d' = ?t" if run: "run_threads e d ranges tr2 = Ok tr3 d'"
      for ranges tr2 tr3 d'
    proof -
      from run have "d' = fold apply_store (worker e d ranges) d"
        by (rule run_threads_Ok(2))
      then show ?thesis by (simp add: fold_apply_store_frame tab)
    qed
    with tab show ?thesis by blast
  qed
  from made len entry range mid frame show ?thesis by blast
qed

theorem expTable_binary32_contents_witness:
  "expTableSize example_settings < 2 ^ 16 \<and> expValueMax example_settings \<le> 88 \<and>
   (\<exists>t tr1 d tr3 d'.
      make_expTable (expTableSize example_settings) (expValueMax example_settings) = Some t \<and>
      length t = 1000 \<and>
      t ! 999 = expTable_entry 1000 6 999 \<and>
      (\<exists>v. t ! 0 = Finite v \<and> 0 \<le> v \<and> v \<le> 1) \<and>
      (\<exists>v. t ! 999 = Finite v \<and> 0 \<le> v \<and> v \<le> 1) \<and>
      t ! 500 = Finite (1 / 2) \<and>
      init_data example_env example_settings example_corpus 6 1234 [New_corpus, New_settings]
        = Ok tr1 d \<and>
      expTable d = t \<and>
      run_threads example_env d [(0, 0)] tr1 = Ok tr3 d' \<and>
      expTable d' = t) \<and>
   expTableSize example_settings_steep < 2 ^ 16 \<and>
   (\<exists>t. make_expTable (expTableSize example_settings_steep)
               (expValueMax example_settings_steep) = Some t \<and>
        length t = 4 \<and> t ! 1 = Finite 0 \<and> t ! 2 = Finite (1 / 2))"
proof -
  have N: "expTableSize example_settings < 2 ^ 16" and M: "expValueMax example_settings \<le> 88"
    and NM: "expTableSize example_settings = 1000" "expValueMax example_settings = 6"
    by (simp_all add: example_settings_def)
  from example_init obtain tr1 d where init:
    "init_data example_env example_settings example_corpus 6 1234 [New_corpus, New_settings]
       = Ok tr1 d"
    by blast
  then have "settings d = example_settings" by (rule init_data_Ok(6))
  then have "\<exists>tr3 d'. run_threads example_env d [(0, 0)] tr1 = Ok tr3 d'"
    by (simp add: run_threads_def example_settings_def)
  then obtain tr3 d' where run: "run_threads example_env d [(0, 0)] tr1 = Ok tr3 d'"
    by blast
  from expTable_binary32_contents [OF N, of example_env example_corpus 6 1234
         "[New_corpus, New_settings]"]
  obtain t where t: "make_expTable (expTableSize example_settings) (expValueMax example_settings)
                       = Some t"
    "length t = expTableSize example_settings"
    and entry: "\<And>r. r < expTableSize example_settings \<Longrightarrow>
           t ! r = expTable_entry (expTableSize example_settings) (expValueMax example_settings) r"
    and range: "\<And>r. r < expTableSize example_settings \<Longrightarrow>
           \<exists>v. t ! r = Finite v \<and> 0 \<le> v \<and> v \<le> 1"
    and mid: "\<And>r. 0 < r \<and> 2 * r = expTableSize example_settings \<Longrightarrow> t ! r = Finite (1 / 2)"
    and frame: "\<And>tr1 d. init_data example_env example_settings example_corpus 6 1234
                   [New_corpus, New_settings] = Ok tr1 d \<Longrightarrow>
           expTable d = t \<and>
           (\<forall>ranges tr2 tr3 d'. run_threads example_env d ranges tr2 = Ok tr3 d' \<longrightarrow>
              expTable d' = t)"
    using M by blast
  have "length t = 1000" using t(2) by (simp add: NM)
  moreover have "t ! 999 = expTable_entry 1000 6 999" using entry [of 999] by (simp add: NM)
  moreover have "\<exists>v. t ! 0 = Finite v \<and> 0 \<le> v \<and> v \<le> 1" using range [of 0] by (simp add: NM)
  moreover have "\<exists>v. t ! 999 = Finite v \<and> 0 \<le> v \<and> v \<le> 1"
    using range [of 999] by (simp add: NM)
  moreover have "t ! 500 = Finite (1 / 2)" using mid [of 500] by (simp add: NM)
  moreover from frame [OF init] run have "expTable d = t" "expTable d' = t" by blast+
  ultimately have first: "\<exists>t tr1 d tr3 d'.
      make_expTable (expTableSize example_settings) (expValueMax example_settings) = Some t \<and>
      length t = 1000 \<and>
      t ! 999 = expTable_entry 1000 6 999 \<and>
      (\<exists>v. t ! 0 = Finite v \<and> 0 \<le> v \<and> v \<le> 1) \<and>
      (\<exists>v. t ! 999 = Finite v \<and> 0 \<le> v \<and> v \<le> 1) \<and>
      t ! 500 = Finite (1 / 2) \<and>
      init_data example_env example_settings example_corpus 6 1234 [New_corpus, New_settings]
        = Ok tr1 d \<and>
      expTable d = t \<and>
      run_threads example_env d [(0, 0)] tr1 = Ok tr3 d' \<and>
      expTable d' = t"
    using t(1) init run by blast
  have N': "expTableSize example_settings_steep < 2 ^ 16"
    and NM': "expTableSize example_settings_steep = 4" "expValueMax example_settings_steep = 255"
    by (simp_all add: example_settings_steep_def)
  from expTable_binary32_contents [OF N', of example_env example_corpus 6 1234
         "[New_corpus, New_settings]"]
  obtain t' where t': "make_expTable (expTableSize example_settings_steep)
                         (expValueMax example_settings_steep) = Some t'"
    "length t' = expTableSize example_settings_steep"
    and entry': "\<And>r. r < expTableSize example_settings_steep \<Longrightarrow>
           t' ! r = expTable_entry (expTableSize example_settings_steep)
                      (expValueMax example_settings_steep) r"
    by blast
  have "length t' = 4" using t'(2) by (simp add: NM')
  moreover have "t' ! 1 = Finite 0"
  proof -
    have "t' ! 1 = expTable_entry 4 255 1" using entry' [of 1] by (simp only: NM')
    then show ?thesis by (simp add: expTable_entry_4_255)
  qed
  moreover have "t' ! 2 = Finite (1 / 2)"
  proof -
    have "t' ! 2 = expTable_entry 4 255 2" using entry' [of 2] by (simp only: NM')
    then show ?thesis by (simp add: expTable_entry_4_255)
  qed
  ultimately have second: "\<exists>t. make_expTable (expTableSize example_settings_steep)
               (expValueMax example_settings_steep) = Some t \<and>
        length t = 4 \<and> t ! 1 = Finite 0 \<and> t ! 2 = Finite (1 / 2)"
    using t'(1) by blast
  from N M first N' second show ?thesis by blast
qed

text \<open>
  C6, as stated, fails: the entries are binary32 values, not the real numbers of the
  formula. With four entries and \<^verbatim>\<open>expValueMax\<close> 255 the exponential underflows to 0 at
  the index 0, where the formula is positive, and it overflows at the index 3, where the
  quotient of two infinities is NaN.
\<close>

theorem expTable_not_exact_counterexample:
  "make_expTable (expTableSize example_settings_steep) (expValueMax example_settings_steep) =
     Some [Finite 0, Finite 0, Finite (1 / 2), NaN] \<and>
   [Finite 0, Finite 0, Finite (1 / 2), NaN] ! 0 \<noteq> Finite (sigmoid_spec 4 255 0) \<and>
   [Finite 0, Finite 0, Finite (1 / 2), NaN] ! 3 \<noteq> Finite (sigmoid_spec 4 255 3)"
proof -
  have "[0..<4] = [0, 1, 2, 3]" by (simp add: numeral_eq_Suc)
  then have "map (expTable_entry 4 255) [0..<4] = [Finite 0, Finite 0, Finite (1 / 2), NaN]"
    by (simp add: expTable_entry_4_255)
  moreover have "make_expTable 4 255 = Some (map (expTable_entry 4 255) [0..<4])"
    by (rule make_expTable_closed) simp
  moreover have "0 < sigmoid_spec 4 255 0"
    by (simp add: sigmoid_spec_def Let_def add_pos_pos)
  ultimately show ?thesis
    by (simp add: example_settings_steep_def)
qed

text \<open>
  C7, as amended. On every call that returns, the orchestrator has constructed no
  negative-sampling table; it has constructed a Huffman tree only if \<^verbatim>\<open>withHS\<close> is set,
  and when it returns true it has constructed one exactly if \<^verbatim>\<open>withHS\<close> is set, and the
  shared data holds a Huffman tree exactly if \<^verbatim>\<open>withHS\<close> is set.
\<close>

theorem orchestrator_builds_huffman_tree_only:
  assumes "train e w s c = Some (tr, b, w')"
  shows "New_nsDistribution \<notin> set tr \<and>
         (New_huffmanTree \<in> set tr \<longrightarrow> withHS s) \<and>
         (b \<longrightarrow> (New_huffmanTree \<in> set tr \<longleftrightarrow> withHS s)) \<and>
         (\<forall>d. train_body e s c = Ok tr d \<longrightarrow> (huffmanTree d \<noteq> None \<longleftrightarrow> withHS s))"
proof (cases "train_body e s c")
  case (Ok tr0 d)
  with assms have "tr0 = tr"
    by (auto simp add: train_def Let_def split: prod.splits option.splits)
  with Ok have body: "train_body e s c = Ok tr d" by simp
  from train_body_Ok [OF body] obtain tr1 d0 tr2 rs where
    i: "init_data e s c (of_nat (size_s s * length (words c))) (mt19937_64 e (random_s s))
          [New_corpus, New_settings] = Ok tr1 d0"
    and r: "run_threads e d0 rs tr2 = Ok tr d"
    by blast
  from r have "d = fold apply_store (worker e d0 rs) d0" by (rule run_threads_Ok(2))
  then have "huffmanTree d = huffmanTree d0" by (simp add: fold_apply_store_frame)
  with init_data_Ok(5) [OF i] have tree: "huffmanTree d \<noteq> None \<longleftrightarrow> withHS s" by simp
  from train_body_Ok_trace [OF body]
  have "New_nsDistribution \<notin> set tr \<and> (New_huffmanTree \<in> set tr \<longleftrightarrow> withHS s)"
    by auto
  with tree body show ?thesis by simp
next
  case (Throw tr0 x)
  with assms have "tr0 = tr" and "\<not> b" by (simp_all add: train_def Let_def)
  with Throw have body: "train_body e s c = Throw tr x" by simp
  from train_body_Throw_trace [OF body]
  have "New_nsDistribution \<notin> set tr \<and> (New_huffmanTree \<in> set tr \<longrightarrow> withHS s)"
    by auto
  with body \<open>\<not> b\<close> show ?thesis by simp
next
  case Stuck
  with assms show ?thesis by (simp add: train_def Let_def)
qed

theorem orchestrator_builds_huffman_tree_only_witness:
  "\<exists>w'. train example_env example_model example_settings example_corpus =
     Some ([New_corpus, New_settings, New_bpWeights 6, New_pjLayerValues 6, New_expTable 1000,
            New_huffmanTree, New_processedWords, New_alpha, New_trainThread 0 0,
            Launch 0, Join 0], True, w') \<and>
     New_nsDistribution \<notin> set [New_corpus, New_settings, New_bpWeights 6, New_pjLayerValues 6,
            New_expTable 1000, New_huffmanTree, New_processedWords, New_alpha,
            New_trainThread 0 0, Launch 0, Join 0] \<and>
     withHS example_settings"
proof -
  from example_run obtain w' where
    run: "train example_env example_model example_settings example_corpus =
     Some ([New_corpus, New_settings, New_bpWeights 6, New_pjLayerValues 6, New_expTable 1000,
            New_huffmanTree, New_processedWords, New_alpha, New_trainThread 0 0,
            Launch 0, Join 0], True, w')"
    by blast
  from orchestrator_builds_huffman_tree_only [OF run] run show ?thesis by auto
qed

text \<open>
  C7, as stated, fails: with \<^verbatim>\<open>withHS\<close> unset (negative sampling) the call returns true
  and the orchestrator has constructed no negative-sampling table.
\<close>

theorem ns_table_counterexample:
  "\<not> withHS example_settings_ns \<and>
   map_option (fst \<circ> snd)
     (train example_env example_model example_settings_ns example_corpus) = Some True \<and>
   New_nsDistribution \<notin>
     set (fst (the (train example_env example_model example_settings_ns example_corpus)))"
proof -
  from example_run_ns obtain w' where
    run: "train example_env example_model example_settings_ns example_corpus =
     Some ([New_corpus, New_settings, New_bpWeights 6, New_pjLayerValues 6, New_expTable 1000,
            New_processedWords, New_alpha, New_trainThread 0 0, Launch 0, Join 0], True, w')"
    by blast
  show ?thesis
    unfolding run by (simp add: example_settings_ns_def example_settings_def)
qed

text \<open>
  C8. With a non-negative initial rate, the learning rate of the schedule does not
  increase as the shared counter of processed words grows, and it is never below
  \<open>alpha_initial * minFraction\<close>.
\<close>

theorem learning_rate_schedule:
  assumes "0 \<le> alpha_initial" and "p \<le> p'"
  shows "learning_rate alpha_initial minFraction iters totalTrainWords p'
           \<le> learning_rate alpha_initial minFraction iters totalTrainWords p \<and>
         alpha_initial * minFraction \<le> learning_rate alpha_initial minFraction iters totalTrainWords p"
proof -
  have "real p / real (iters * totalTrainWords + 1) \<le> real p' / real (iters * totalTrainWords + 1)"
    using assms(2) by (intro divide_right_mono) simp_all
  then have "max (1 - real p' / real (iters * totalTrainWords + 1)) minFraction
               \<le> max (1 - real p / real (iters * totalTrainWords + 1)) minFraction"
    by (intro max.mono) simp_all
  then have mono: "learning_rate alpha_initial minFraction iters totalTrainWords p'
           \<le> learning_rate alpha_initial minFraction iters totalTrainWords p"
    unfolding learning_rate_def using assms(1) by (rule mult_left_mono)
  have "minFraction \<le> max (1 - real p / real (iters * totalTrainWords + 1)) minFraction"
    by simp
  then have "alpha_initial * minFraction \<le> learning_rate alpha_initial minFraction iters totalTrainWords p"
    unfolding learning_rate_def using assms(1) by (rule mult_left_mono)
  with mono show ?thesis by simp
qed

theorem learning_rate_schedule_witness:
  "(0::real) \<le> 1 / 20 \<and> (3::nat) \<le> 7 \<and>
   learning_rate (1 / 20) (1 / 10000) 5 2 7 \<le> learning_rate (1 / 20) (1 / 10000) 5 2 3 \<and>
   (1 / 20) * (1 / 10000) \<le> learning_rate (1 / 20) (1 / 10000) 5 2 3"
  using learning_rate_schedule [of "1 / 20" 3 7 "1 / 10000" 5 2] by simp

text \<open>
  C9. The loop that fills the sigmoid table ends for every \<^verbatim>\<open>expTableSize\<close> that a 16-bit
  unsigned field can hold.
\<close>

theorem expTable_loop_terminates:
  assumes "expTableSize s < 2 ^ 16"
  shows "\<exists>t. expTable_loop (expTableSize s) (expValueMax s) 0
                (replicate (expTableSize s) (Finite 0)) = Some t"
  using expTable_loop_returns
          [of "expTableSize s" 0 "replicate (expTableSize s) (Finite 0)" "expValueMax s"]
    assms by auto

theorem expTable_loop_terminates_witness:
  "expTableSize example_settings < 2 ^ 16 \<and>
   (\<exists>t. expTable_loop (expTableSize example_settings) (expValueMax example_settings) 0
                (replicate (expTableSize example_settings) (Finite 0)) = Some t)"
  using expTable_loop_terminates [of example_settings]
  by (simp add: example_settings_def)




end
